theory Spec2Isabelle
  imports Main "HOL-Library.Log_Nat"
begin

section \<open>JavaScript values\<close>

text \<open>
  The repository is dynamically typed JavaScript: every constructor checks the run-time
  type of its arguments (\<^verbatim>\<open>instanceof\<close>, \<^verbatim>\<open>typeof\<close>, \<^verbatim>\<open>Number.isFinite\<close>) and throws
  \<^verbatim>\<open>ValidationError\<close> when a check fails. Arguments are therefore values of a tagged union,
  a throw is the left injection of a sum, and the message text of the error is left out
  (there is one error class, and no code path inspects the message).
\<close>

datatype error = ValidationError

text \<open>
  A Number is an IEEE 754 binary64 value. A finite one is carried as the rational it
  denotes. The two zeros are identified: no operation modelled here tells them apart
  (\<^verbatim>\<open><\<close>, \<^verbatim>\<open>===\<close>, \<^verbatim>\<open>Number.isFinite\<close> do not, and \<^verbatim>\<open>toFixed\<close> prints both as 0.00).
\<close>

datatype number = NaN | PosInf | NegInf | Num rat

datatype Currency = Currency (code: string)

record Money =
  amount :: number
  currency :: Currency

datatype ProductId = ProductId (pid_value: string)

datatype SupplierId = SupplierId (sid_value: string)

datatype DateTime = DateTime (date: int)

datatype jsval =
    JUndefined
  | JNull
  | JBool bool
  | JNum number
  | JStr string
  | JCurrency Currency
  | JMoney Money
  | JProductId ProductId
  | JSupplierId SupplierId
  | JDateTime DateTime
  | JObject string

text \<open>\<^verbatim>\<open>!v\<close> negates the truthiness of \<^verbatim>\<open>v\<close>; every object is truthy.\<close>

fun truthy :: "jsval \<Rightarrow> bool" where
  "truthy JUndefined = False"
| "truthy JNull = False"
| "truthy (JBool b) = b"
| "truthy (JNum NaN) = False"
| "truthy (JNum (Num x)) = (x \<noteq> 0)"
| "truthy (JNum _) = True"
| "truthy (JStr s) = (s \<noteq> [])"
| "truthy _ = True"

fun instanceof_Currency :: "jsval \<Rightarrow> bool" where
  "instanceof_Currency (JCurrency c) = True"
| "instanceof_Currency _ = False"

fun instanceof_Money :: "jsval \<Rightarrow> bool" where
  "instanceof_Money (JMoney m) = True"
| "instanceof_Money _ = False"

fun instanceof_ProductId :: "jsval \<Rightarrow> bool" where
  "instanceof_ProductId (JProductId p) = True"
| "instanceof_ProductId _ = False"

fun typeof_string :: "jsval \<Rightarrow> bool" where
  "typeof_string (JStr s) = True"
| "typeof_string _ = False"

text \<open>\<^verbatim>\<open>Number.isFinite\<close> and \<^verbatim>\<open>Number.isInteger\<close> do not coerce: anything that is not a
  Number gives false.\<close>

fun Number_isFinite :: "jsval \<Rightarrow> bool" where
  "Number_isFinite (JNum (Num x)) = True"
| "Number_isFinite _ = False"

fun Number_isInteger :: "jsval \<Rightarrow> bool" where
  "Number_isInteger (JNum (Num x)) = (of_int \<lfloor>x\<rfloor> = x)"
| "Number_isInteger _ = False"

text \<open>The value of a finite Number operand. The source compares (\<^verbatim>\<open>amount < 0\<close>,
  \<^verbatim>\<open>quantity > 1000\<close>) only to the right of a failed \<^verbatim>\<open>!Number.isFinite(..) ||\<close> or
  \<^verbatim>\<open>!Number.isInteger(..) ||\<close>, so the operand is a finite Number wherever this is used.\<close>

fun num_val :: "jsval \<Rightarrow> rat" where
  "num_val (JNum (Num x)) = x"
| "num_val _ = 0"

section \<open>Binary64 arithmetic\<close>

text \<open>\<open>ilog2 x\<close> is the integer \<open>k\<close> with \<open>2^k \<le> x < 2^(k+1)\<close>, for \<open>x > 0\<close>.\<close>

definition ilog2 :: "rat \<Rightarrow> int" where
  "ilog2 x = (if 1 \<le> x then bitlen \<lfloor>x\<rfloor> - 1 else - bitlen (\<lceil>1 / x\<rceil> - 1))"

definition round_ties_even :: "rat \<Rightarrow> int" where
  "round_ties_even q =
     (let f = \<lfloor>q\<rfloor>; d = q - of_int f
      in if d < 1 / 2 then f
         else if 1 / 2 < d then f + 1
         else if even f then f else f + 1)"

text \<open>
  \<open>fl x\<close> is "the Number value for \<open>x\<close>" of ECMAScript: the binary64 value nearest to the
  real \<open>x\<close>, ties to the even significand, with 53 significant bits, least exponent
  \<open>-1074\<close> (subnormals) and overflow to an infinity from \<open>2^1024 - 2^970\<close> on.
\<close>

definition fl :: "rat \<Rightarrow> number" where
  "fl x =
     (if x = 0 then Num 0
      else
        let a = \<bar>x\<bar>;
            e = max (ilog2 a - 52) (- 1074);
            m = round_ties_even (a / 2 powi e);
            y = of_int m * 2 powi e
        in if 2 ^ 1024 \<le> y then (if 0 < x then PosInf else NegInf)
           else Num (sgn x * y))"

text \<open>The finite binary64 values are the rationals that rounding leaves unchanged.\<close>

definition binary64 :: "rat \<Rightarrow> bool" where
  "binary64 x = (fl x = Num x)"

text \<open>The operators \<^verbatim>\<open>+\<close> and \<^verbatim>\<open>*\<close> on Numbers.\<close>

fun num_add :: "number \<Rightarrow> number \<Rightarrow> number" where
  "num_add (Num a) (Num b) = fl (a + b)"
| "num_add NaN _ = NaN"
| "num_add _ NaN = NaN"
| "num_add PosInf NegInf = NaN"
| "num_add NegInf PosInf = NaN"
| "num_add PosInf _ = PosInf"
| "num_add NegInf _ = NegInf"
| "num_add _ PosInf = PosInf"
| "num_add _ NegInf = NegInf"

fun num_mul :: "number \<Rightarrow> number \<Rightarrow> number" where
  "num_mul (Num a) (Num b) = fl (a * b)"
| "num_mul NaN _ = NaN"
| "num_mul _ NaN = NaN"
| "num_mul PosInf (Num b) = (if b = 0 then NaN else if 0 < b then PosInf else NegInf)"
| "num_mul NegInf (Num b) = (if b = 0 then NaN else if 0 < b then NegInf else PosInf)"
| "num_mul (Num a) PosInf = (if a = 0 then NaN else if 0 < a then PosInf else NegInf)"
| "num_mul (Num a) NegInf = (if a = 0 then NaN else if 0 < a then NegInf else PosInf)"
| "num_mul PosInf PosInf = PosInf"
| "num_mul NegInf NegInf = PosInf"
| "num_mul PosInf NegInf = NegInf"
| "num_mul NegInf PosInf = NegInf"

text \<open>
  \<^verbatim>\<open>Number(x.toFixed(2))\<close> for a finite \<open>x\<close>. Below \<open>10^21\<close>, \<^verbatim>\<open>toFixed(2)\<close> prints \<open>n / 100\<close>
  for the integer \<open>n\<close> that makes \<open>n / 100 - \<bar>x\<bar>\<close> closest to zero, the larger \<open>n\<close> of two,
  with the sign of \<open>x\<close>, and \<^verbatim>\<open>Number\<close> reads the decimal back as the nearest Number.
  From \<open>10^21\<close> on, \<^verbatim>\<open>toFixed\<close> prints \<^verbatim>\<open>String(x)\<close>, which \<^verbatim>\<open>Number\<close> reads back as \<open>x\<close>
  (and \<open>fl x\<close> is \<open>x\<close> for a binary64 value \<open>x\<close>).
\<close>

definition toFixed2_cents :: "rat \<Rightarrow> int" where
  "toFixed2_cents x = \<lfloor>\<bar>x\<bar> * 100 + 1 / 2\<rfloor>"

definition Number_toFixed2 :: "rat \<Rightarrow> number" where
  "Number_toFixed2 x =
     (if 10 ^ 21 \<le> \<bar>x\<bar> then fl x
      else fl (sgn x * of_int (toFixed2_cents x) / 100))"

text \<open>The Number that holds \<open>n\<close> hundredths: the one nearest to \<open>n / 100\<close>.\<close>

definition of_cents :: "nat \<Rightarrow> number" where
  "of_cents n = fl (of_nat n / 100)"

section \<open>Currency\<close>

definition VALID_CODES :: "string list" where
  "VALID_CODES = [''USD'', ''EUR'', ''GBP'', ''JPY'']"

fun Currency_new :: "jsval \<Rightarrow> error + Currency" where
  "Currency_new (JStr c) =
     (if c \<notin> set VALID_CODES then Inl ValidationError else Inr (Currency c))"
| "Currency_new _ = Inl ValidationError"

fun Currency_equals :: "Currency \<Rightarrow> jsval \<Rightarrow> bool" where
  "Currency_equals this (JCurrency other) = (code this = code other)"
| "Currency_equals this _ = False"

section \<open>Money\<close>

fun the_Currency :: "jsval \<Rightarrow> Currency" where
  "the_Currency (JCurrency c) = c"
| "the_Currency _ = Currency []"

definition Money_new :: "jsval \<Rightarrow> jsval \<Rightarrow> error + Money" where
  "Money_new amt cur =
     (if \<not> Number_isFinite amt \<or> num_val amt < 0 then Inl ValidationError
      else if \<not> instanceof_Currency cur then Inl ValidationError
      else Inr \<lparr>amount = Number_toFixed2 (num_val amt), currency = the_Currency cur\<rparr>)"

fun Money_add :: "Money \<Rightarrow> jsval \<Rightarrow> error + Money" where
  "Money_add this (JMoney other) =
     (if \<not> Currency_equals (currency this) (JCurrency (currency other))
      then Inl ValidationError
      else Money_new (JNum (num_add (amount this) (amount other)))
                     (JCurrency (currency this)))"
| "Money_add this _ = Inl ValidationError"

definition Money_multiply :: "Money \<Rightarrow> jsval \<Rightarrow> error + Money" where
  "Money_multiply this multiplier =
     (if \<not> Number_isFinite multiplier \<or> num_val multiplier < 0 then Inl ValidationError
      else Money_new (JNum (num_mul (amount this) (Num (num_val multiplier))))
                     (JCurrency (currency this)))"

fun Money_equals :: "Money \<Rightarrow> jsval \<Rightarrow> bool" where
  "Money_equals this (JMoney other) =
     (amount this \<noteq> NaN \<and> amount this = amount other
      \<and> Currency_equals (currency this) (JCurrency (currency other)))"
| "Money_equals this _ = False"

section \<open>PurchaseOrderState\<close>

datatype PurchaseOrderState = Draft | Submitted | Approved | Shipped | Completed | Cancelled

fun state_value :: "PurchaseOrderState \<Rightarrow> string" where
  "state_value Draft = ''Draft''"
| "state_value Submitted = ''Submitted''"
| "state_value Approved = ''Approved''"
| "state_value Shipped = ''Shipped''"
| "state_value Completed = ''Completed''"
| "state_value Cancelled = ''Cancelled''"

definition VALID_STATES :: "PurchaseOrderState list" where
  "VALID_STATES = [Draft, Submitted, Approved, Shipped, Completed, Cancelled]"

text \<open>The constructor accepts exactly the six strings of the table; its default is Draft.\<close>

definition PurchaseOrderState_new :: "string option \<Rightarrow> error + PurchaseOrderState" where
  "PurchaseOrderState_new v =
     (case v of
        None \<Rightarrow> Inr Draft
      | Some s \<Rightarrow>
          (case filter (\<lambda>st. state_value st = s) VALID_STATES of
             [] \<Rightarrow> Inl ValidationError
           | st # _ \<Rightarrow> Inr st))"

definition toSubmittedFrom :: "PurchaseOrderState \<Rightarrow> error + PurchaseOrderState" where
  "toSubmittedFrom currentState =
     (if currentState \<noteq> Draft then Inl ValidationError else Inr Submitted)"

definition toApprovedFrom :: "PurchaseOrderState \<Rightarrow> error + PurchaseOrderState" where
  "toApprovedFrom currentState =
     (if currentState \<noteq> Submitted then Inl ValidationError else Inr Approved)"

definition toShippedFrom :: "PurchaseOrderState \<Rightarrow> error + PurchaseOrderState" where
  "toShippedFrom currentState =
     (if currentState \<noteq> Approved then Inl ValidationError else Inr Shipped)"

definition toCompletedFrom :: "PurchaseOrderState \<Rightarrow> error + PurchaseOrderState" where
  "toCompletedFrom currentState =
     (if currentState \<noteq> Shipped then Inl ValidationError else Inr Completed)"

definition toCancelledFrom :: "PurchaseOrderState \<Rightarrow> error + PurchaseOrderState" where
  "toCancelledFrom currentState =
     (if currentState = Completed then Inl ValidationError else Inr Cancelled)"

definition isDraft :: "PurchaseOrderState \<Rightarrow> bool" where
  "isDraft this = (this = Draft)"

section \<open>PurchaseOrderItem\<close>

record PurchaseOrderItem =
  orderId :: string
  productId :: ProductId
  quantity :: number
  unitPrice :: Money

fun the_string :: "jsval \<Rightarrow> string" where
  "the_string (JStr s) = s"
| "the_string _ = []"

fun the_ProductId :: "jsval \<Rightarrow> ProductId" where
  "the_ProductId (JProductId p) = p"
| "the_ProductId _ = ProductId []"

fun the_Money :: "jsval \<Rightarrow> Money" where
  "the_Money (JMoney m) = m"
| "the_Money _ = \<lparr>amount = NaN, currency = Currency []\<rparr>"

fun the_number :: "jsval \<Rightarrow> number" where
  "the_number (JNum n) = n"
| "the_number _ = NaN"

definition PurchaseOrderItem_new ::
  "jsval \<Rightarrow> jsval \<Rightarrow> jsval \<Rightarrow> jsval \<Rightarrow> error + PurchaseOrderItem" where
  "PurchaseOrderItem_new oid pid qty price =
     (if \<not> typeof_string oid \<or> \<not> truthy oid then Inl ValidationError
      else if \<not> instanceof_ProductId pid then Inl ValidationError
      else if \<not> Number_isInteger qty \<or> num_val qty \<le> 0 \<or> 1000 < num_val qty
        then Inl ValidationError
      else if \<not> instanceof_Money price then Inl ValidationError
      else Inr \<lparr>orderId = the_string oid, productId = the_ProductId pid,
                quantity = the_number qty, unitPrice = the_Money price\<rparr>)"

definition calculateSubtotal :: "PurchaseOrderItem \<Rightarrow> error + Money" where
  "calculateSubtotal this = Money_multiply (unitPrice this) (JNum (quantity this))"

section \<open>PurchaseOrder\<close>

text \<open>
  The private fields of the aggregate. \<^verbatim>\<open>supplierId\<close> and \<^verbatim>\<open>currency\<close> hold whatever value
  passed the constructor's checks, so they are values of the tagged union.
\<close>

record PurchaseOrder =
  po_id :: string
  po_supplierId :: jsval
  po_currency :: jsval
  po_orderDate :: DateTime
  po_items :: "PurchaseOrderItem list"
  po_state :: PurchaseOrderState

definition MAX_ITEMS :: nat where
  "MAX_ITEMS = 50"

text \<open>
  The constructor reads two things from its environment: the identifier that
  \<^verbatim>\<open>generateUUID()\<close> returns and the clock that \<^verbatim>\<open>new DateTime()\<close> reads. Both are
  parameters here.

  The second check is written \<^verbatim>\<open>!currency instanceof Currency\<close> in the source. The unary
  \<^verbatim>\<open>!\<close> binds tighter than \<^verbatim>\<open>instanceof\<close>, so the operand of \<^verbatim>\<open>instanceof\<close> is the boolean
  \<^verbatim>\<open>!currency\<close>.
\<close>

definition PurchaseOrder_new ::
  "string \<Rightarrow> int \<Rightarrow> jsval \<Rightarrow> jsval \<Rightarrow> jsval \<Rightarrow> error + PurchaseOrder" where
  "PurchaseOrder_new uuid now supplier cur odate =
     (if \<not> truthy supplier then Inl ValidationError
      else if instanceof_Currency (JBool (\<not> truthy cur)) then Inl ValidationError
      else Inr \<lparr>po_id = uuid,
                po_supplierId = supplier,
                po_currency = cur,
                po_orderDate =
                  (case odate of JDateTime d \<Rightarrow> d | _ \<Rightarrow> DateTime now),
                po_items = [],
                po_state = Draft\<rparr>)"

text \<open>
  A mutator returns what the call did (returned, or threw) together with the aggregate
  as the call left it.
\<close>

definition addItem ::
  "jsval \<Rightarrow> jsval \<Rightarrow> jsval \<Rightarrow> PurchaseOrder \<Rightarrow> (error + unit) \<times> PurchaseOrder" where
  "addItem pid qty price this =
     (if \<not> isDraft (po_state this) then (Inl ValidationError, this)
      else if MAX_ITEMS \<le> length (po_items this) then (Inl ValidationError, this)
      else if \<not> Number_isFinite price \<or> num_val price < 0 then (Inl ValidationError, this)
      else
        (case Money_new price (po_currency this) of
           Inl e \<Rightarrow> (Inl e, this)
         | Inr m \<Rightarrow>
            (case PurchaseOrderItem_new (JStr (po_id this)) pid qty (JMoney m) of
               Inl e \<Rightarrow> (Inl e, this)
             | Inr item \<Rightarrow> (Inr (), this\<lparr>po_items := po_items this @ [item]\<rparr>))))"

text \<open>\<^verbatim>\<open>Array.prototype.reduce\<close> with an initial value and a callback that may throw.\<close>

fun reduce :: "('b \<Rightarrow> 'a \<Rightarrow> error + 'b) \<Rightarrow> 'b \<Rightarrow> 'a list \<Rightarrow> error + 'b" where
  "reduce f acc [] = Inr acc"
| "reduce f acc (x # xs) =
     (case f acc x of Inl e \<Rightarrow> Inl e | Inr acc' \<Rightarrow> reduce f acc' xs)"

definition add_subtotal :: "Money \<Rightarrow> PurchaseOrderItem \<Rightarrow> error + Money" where
  "add_subtotal acc item =
     (case calculateSubtotal item of
        Inl e \<Rightarrow> Inl e
      | Inr s \<Rightarrow> Money_add acc (JMoney s))"

definition calculateTotalPrice :: "PurchaseOrder \<Rightarrow> error + Money" where
  "calculateTotalPrice this =
     (if length (po_items this) = 0 then Inl ValidationError
      else
        (case Money_new (JNum (Num 0)) (po_currency this) of
           Inl e \<Rightarrow> Inl e
         | Inr zero \<Rightarrow> reduce add_subtotal zero (po_items this)))"

text \<open>
  The total as the specification words it: the item subtotals folded with \<open>Money.add\<close>,
  in item order, starting from a zero-amount Money in the order's currency; a failure of
  any step is the failure of the whole.
\<close>

definition spec_total :: "PurchaseOrder \<Rightarrow> error + Money" where
  "spec_total po =
     foldl (\<lambda>acc item.
              case acc of
                Inl e \<Rightarrow> Inl e
              | Inr running \<Rightarrow>
                 (case calculateSubtotal item of
                    Inl e \<Rightarrow> Inl e
                  | Inr subtotal \<Rightarrow> Money_add running (JMoney subtotal)))
           (Money_new (JNum (Num 0)) (po_currency po))
           (po_items po)"

definition transition ::
  "(PurchaseOrderState \<Rightarrow> error + PurchaseOrderState) \<Rightarrow> PurchaseOrder
     \<Rightarrow> (error + unit) \<times> PurchaseOrder" where
  "transition to_from this =
     (case to_from (po_state this) of
        Inl e \<Rightarrow> (Inl e, this)
      | Inr s \<Rightarrow> (Inr (), this\<lparr>po_state := s\<rparr>))"

definition approve :: "PurchaseOrder \<Rightarrow> (error + unit) \<times> PurchaseOrder" where
  "approve this = transition toApprovedFrom this"

definition ship :: "PurchaseOrder \<Rightarrow> (error + unit) \<times> PurchaseOrder" where
  "ship this = transition toShippedFrom this"

definition complete :: "PurchaseOrder \<Rightarrow> (error + unit) \<times> PurchaseOrder" where
  "complete this = transition toCompletedFrom this"

definition cancel :: "PurchaseOrder \<Rightarrow> (error + unit) \<times> PurchaseOrder" where
  "cancel this = transition toCancelledFrom this"

text \<open>The accessors: \<^verbatim>\<open>items\<close> returns a copy of the list, \<^verbatim>\<open>state\<close> the state's string.\<close>

definition get_items :: "PurchaseOrder \<Rightarrow> PurchaseOrderItem list" where
  "get_items this = po_items this"

definition get_state :: "PurchaseOrder \<Rightarrow> string" where
  "get_state this = state_value (po_state this)"

definition get_isDraft :: "PurchaseOrder \<Rightarrow> bool" where
  "get_isDraft this = isDraft (po_state this)"

subsection \<open>The public operations of the aggregate\<close>

datatype operation =
    AddItem jsval jsval jsval
  | Approve
  | Ship
  | Complete
  | Cancel
  | CalculateTotalPrice
  | Accessor

text \<open>The aggregate after a call, whether the call returned or threw.\<close>

fun after :: "operation \<Rightarrow> PurchaseOrder \<Rightarrow> PurchaseOrder" where
  "after (AddItem pid qty price) po = snd (addItem pid qty price po)"
| "after Approve po = snd (approve po)"
| "after Ship po = snd (ship po)"
| "after Complete po = snd (complete po)"
| "after Cancel po = snd (cancel po)"
| "after CalculateTotalPrice po = po"
| "after Accessor po = po"

inductive reachable :: "PurchaseOrder \<Rightarrow> bool" where
  created: "PurchaseOrder_new uuid now supplier cur odate = Inr po \<Longrightarrow> reachable po"
| called: "reachable po \<Longrightarrow> reachable (after opn po)"

section \<open>Example values\<close>

text \<open>Concrete values on which the theorems below are instantiated.\<close>

definition USD :: Currency where
  "USD = Currency ''USD''"

definition EUR :: Currency where
  "EUR = Currency ''EUR''"

definition example_uuid :: string where
  "example_uuid = ''3b241101-e2bb-4255-8caf-4136c566a962''"

definition example_supplier :: jsval where
  "example_supplier = JSupplierId (SupplierId ''9c5b94b1-35ad-49bb-b118-8e8fc24abf80'')"

definition example_product :: jsval where
  "example_product = JProductId (ProductId ''1b9d6bcd-bbfd-4b2d-9b5d-ab8dfbbd4bed'')"

text \<open>The order that the constructor returns for a supplier and USD at time 0.\<close>

definition example_order :: PurchaseOrder where
  "example_order =
     \<lparr>po_id = example_uuid, po_supplierId = example_supplier, po_currency = JCurrency USD,
      po_orderDate = DateTime 0, po_items = [], po_state = Draft\<rparr>"

text \<open>The example order after adding 2 items at 10.00 and 1 item at 5.00.\<close>

definition example_items_order :: PurchaseOrder where
  "example_items_order =
     after (AddItem example_product (JNum (Num 1)) (JNum (Num 5)))
       (after (AddItem example_product (JNum (Num 2)) (JNum (Num 10))) example_order)"

text \<open>The example order holding \<open>n\<close> copies of one item.\<close>

definition order_with :: "nat \<Rightarrow> PurchaseOrder" where
  "order_with n =
     example_order\<lparr>po_items :=
       replicate n \<lparr>orderId = example_uuid,
                    productId = ProductId ''1b9d6bcd-bbfd-4b2d-9b5d-ab8dfbbd4bed'',
                    quantity = Num 1, unitPrice = \<lparr>amount = Num 5, currency = USD\<rparr>\<rparr>\<rparr>"

section \<open>Facts about binary64 rounding\<close>

lemma ilog2_ge1:
  assumes "1 \<le> x"
  shows "2 powi (ilog2 x) \<le> x" and "x < 2 powi (ilog2 x + 1)"
proof -
  define n where "n = \<lfloor>x\<rfloor>"
  from assms have n1: "1 \<le> n" unfolding n_def by simp
  then have n0: "0 < n" by simp
  from bitlen_bounds [OF n0]
  have lo: "2 ^ nat (bitlen n - 1) \<le> n" and hi: "n < 2 ^ nat (bitlen n)" by simp_all
  have b1: "1 \<le> bitlen n" using n0 by (simp add: bitlen_alt_def)
  have il: "ilog2 x = bitlen n - 1" using assms by (simp add: ilog2_def n_def)
  have "(2::rat) powi (bitlen n - 1) = 2 ^ nat (bitlen n - 1)"
    using b1 by (simp add: power_int_def)
  also have "\<dots> = of_int (2 ^ nat (bitlen n - 1))" by simp
  also have "\<dots> \<le> of_int n" using lo by (simp only: of_int_le_iff)
  also have "\<dots> \<le> x" unfolding n_def by simp
  finally show "2 powi (ilog2 x) \<le> x" unfolding il .
  have "n + 1 \<le> 2 ^ nat (bitlen n)" using hi by simp
  then have "(of_int (n + 1) :: rat) \<le> of_int (2 ^ nat (bitlen n))"
    by (simp only: of_int_le_iff)
  moreover have "x < of_int (n + 1)" unfolding n_def by linarith
  ultimately have "x < 2 ^ nat (bitlen n)" by simp
  also have "\<dots> = (2::rat) powi (bitlen n)" using b1 by (simp add: power_int_def)
  finally show "x < 2 powi (ilog2 x + 1)" unfolding il by simp
qed

lemma ilog2_lt1:
  assumes "0 < x" "x < 1"
  shows "2 powi (ilog2 x) \<le> x" and "x < 2 powi (ilog2 x + 1)"
proof -
  define c where "c = \<lceil>1 / x\<rceil>"
  define k where "k = c - 1"
  define b where "b = bitlen k"
  from assms have ix: "1 < 1 / x" by simp
  then have "1 < c" unfolding c_def by (simp add: less_ceiling_iff)
  then have k0: "0 < k" unfolding k_def by simp
  from bitlen_bounds [OF k0]
  have lo: "2 ^ nat (b - 1) \<le> k" and hi: "k < 2 ^ nat b" unfolding b_def by simp_all
  have b1: "1 \<le> b" unfolding b_def using k0 by (simp add: bitlen_alt_def)
  have il: "ilog2 x = - b" using assms by (simp add: ilog2_def b_def k_def c_def)
  have cu: "1 / x \<le> of_int c" unfolding c_def by simp
  have cl: "of_int k < 1 / x" unfolding k_def c_def by linarith
  have "k + 1 \<le> 2 ^ nat b" using hi by simp
  then have "(of_int (k + 1) :: rat) \<le> of_int (2 ^ nat b)" by (simp only: of_int_le_iff)
  then have "(of_int c :: rat) \<le> 2 ^ nat b" unfolding k_def by simp
  with cu have "1 / x \<le> 2 ^ nat b" by linarith
  then have "1 / 2 ^ nat b \<le> x" using assms(1)
    by (simp add: field_simps)
  moreover have "(2::rat) powi (- b) = 1 / 2 ^ nat b"
  proof -
    have "(2::rat) powi (- b) = 1 / 2 powi b" by (rule power_int_minus_divide)
    also have "\<dots> = 1 / 2 ^ nat b" using b1 by (simp add: power_int_def)
    finally show ?thesis .
  qed
  ultimately show "2 powi (ilog2 x) \<le> x" unfolding il by simp
  have "(2::rat) ^ nat (b - 1) \<le> of_int k" using lo by simp
  then have "(2::rat) ^ nat (b - 1) < 1 / x" using cl by linarith
  then have "x < 1 / 2 ^ nat (b - 1)" using assms(1)
    by (simp add: field_simps)
  moreover have "(2::rat) powi (- b + 1) = 1 / 2 ^ nat (b - 1)"
  proof -
    have "(2::rat) powi (- b + 1) = 2 powi (- (b - 1))" by simp
    also have "\<dots> = 1 / 2 powi (b - 1)" by (rule power_int_minus_divide)
    also have "\<dots> = 1 / 2 ^ nat (b - 1)" using b1 by (simp add: power_int_def)
    finally show ?thesis .
  qed
  ultimately show "x < 2 powi (ilog2 x + 1)" unfolding il by simp
qed

lemma ilog2_bounds:
  assumes "0 < x"
  shows "2 powi (ilog2 x) \<le> x" and "x < 2 powi (ilog2 x + 1)"
  using assms ilog2_ge1 [of x] ilog2_lt1 [of x] by (cases "1 \<le> x"; simp)+

lemma round_ties_even_error: "\<bar>of_int (round_ties_even q) - q\<bar> \<le> 1 / 2"
proof -
  have "of_int \<lfloor>q\<rfloor> \<le> q" "q < of_int \<lfloor>q\<rfloor> + 1" by linarith+
  then show ?thesis
    by (auto simp: round_ties_even_def Let_def)
qed

lemma round_ties_even_nonneg: "0 \<le> q \<Longrightarrow> 0 \<le> round_ties_even q"
  by (auto simp: round_ties_even_def Let_def)

lemma powi_pos: "0 < (2::rat) powi e"
  by (simp add: zero_less_power_int)

lemma powi_mono: "a \<le> b \<Longrightarrow> (2::rat) powi a \<le> 2 powi b"
  by (rule power_int_increasing) simp_all

lemma powi_less_cancel: "(2::rat) powi a < 2 powi b \<Longrightarrow> a < b"
  using powi_mono [of b a] by (cases "a < b") auto

lemma powi_Suc: "(2::rat) powi (e + 1) = 2 * 2 powi e"
  by (simp add: power_int_add)

text \<open>Relative error of rounding in the normal range.\<close>

lemma fl_rel_error:
  assumes lo: "2 powi (- 1022) \<le> x" and hi: "x < 2 ^ 1023"
  shows "\<exists>y. fl x = Num y \<and> \<bar>y - x\<bar> \<le> x / 2 ^ 53 \<and> 0 < y"
proof -
  have x0: "0 < x" using lo powi_pos [of "- 1022"] by linarith
  define k where "k = ilog2 x"
  have kb: "2 powi k \<le> x" "x < 2 powi (k + 1)"
    unfolding k_def using ilog2_bounds [OF x0] by simp_all
  have "(2::rat) powi (- 1022) < 2 powi (k + 1)" using lo kb(2) by linarith
  then have klo: "- 1022 \<le> k" using powi_less_cancel [of "- 1022" "k + 1"] by simp
  define e where "e = k - 52"
  have emax: "max (ilog2 \<bar>x\<bar> - 52) (- 1074) = e"
    using klo x0 by (simp add: e_def k_def max_def)
  define m where "m = round_ties_even (x / 2 powi e)"
  define y where "y = of_int m * (2::rat) powi e"
  have pe: "0 < (2::rat) powi e" by (rule powi_pos)
  have "\<bar>of_int m - x / 2 powi e\<bar> \<le> 1 / 2"
    unfolding m_def by (rule round_ties_even_error)
  then have "\<bar>of_int m - x / 2 powi e\<bar> * 2 powi e \<le> 1 / 2 * 2 powi e"
    using pe by (intro mult_right_mono) simp_all
  moreover have "\<bar>of_int m - x / 2 powi e\<bar> * 2 powi e = \<bar>y - x\<bar>"
  proof -
    have "\<bar>of_int m - x / 2 powi e\<bar> * 2 powi e = \<bar>(of_int m - x / 2 powi e) * 2 powi e\<bar>"
      using pe by (simp add: abs_mult)
    also have "(of_int m - x / 2 powi e) * 2 powi e = y - x"
      using pe by (simp add: y_def field_simps)
    finally show ?thesis .
  qed
  ultimately have err: "\<bar>y - x\<bar> \<le> 2 powi e / 2" by simp
  have "(2::rat) powi k = 2 powi (e + 52)" by (simp add: e_def)
  also have "\<dots> = 2 powi e * 2 ^ 52" by (simp add: power_int_add)
  finally have ke: "(2::rat) powi k = 2 powi e * 2 ^ 52" .
  have "(2::rat) powi e / 2 = 2 powi k / 2 ^ 53" unfolding ke by simp
  also have "\<dots> \<le> x / 2 ^ 53" using kb(1) by (simp add: divide_right_mono)
  finally have rel: "\<bar>y - x\<bar> \<le> x / 2 ^ 53" using err by linarith
  have "x / 2 ^ 53 < x" using x0 by (simp add: field_simps)
  with rel have ypos: "0 < y" and yup: "y < 2 * x" by linarith+
  have "y < 2 * 2 ^ 1023" using yup hi by linarith
  then have nov: "\<not> 2 ^ 1024 \<le> y" by simp
  have "fl x = Num y"
    using x0 nov unfolding fl_def emax Let_def m_def [symmetric] y_def [symmetric]
    by (simp add: emax m_def [symmetric] y_def [symmetric])
  with rel ypos show ?thesis by blast
qed

text \<open>From \<open>2^53\<close> on, every binary64 value is an integer.\<close>

lemma binary64_integral:
  assumes b: "binary64 x" and big: "2 ^ 53 \<le> x"
  shows "x \<in> \<int>"
proof -
  have x0: "0 < x" using big by (rule less_le_trans [rotated]) simp
  define k where "k = ilog2 x"
  have "x < 2 powi (k + 1)" unfolding k_def using ilog2_bounds(2) [OF x0] .
  with big have "(2::rat) ^ 53 < 2 powi (k + 1)" by linarith
  then have "(2::rat) powi 53 < 2 powi (k + 1)" by simp
  then have "53 < k + 1" by (rule powi_less_cancel)
  then have k53: "53 \<le> k" by simp
  define e where "e = k - 52"
  have e1: "1 \<le> e" using k53 by (simp add: e_def)
  have emax: "max (ilog2 \<bar>x\<bar> - 52) (- 1074) = e"
    using k53 x0 by (simp add: e_def k_def max_def)
  define m where "m = round_ties_even (x / 2 powi e)"
  define y where "y = of_int m * (2::rat) powi e"
  have flx: "fl x = (if 2 ^ 1024 \<le> y then PosInf else Num y)"
    using x0 unfolding fl_def emax Let_def m_def [symmetric] y_def [symmetric]
    by (simp add: emax m_def [symmetric] y_def [symmetric])
  from b have "fl x = Num x" by (simp add: binary64_def)
  with flx have "x = y" by (simp split: if_splits)
  also have "y = of_int (m * 2 ^ nat e)"
    using e1 by (simp add: y_def power_int_def)
  finally show ?thesis by simp
qed

lemma overflow_iff:
  assumes "0 < y"
  shows "2 ^ 1024 \<le> y \<longleftrightarrow> 1024 \<le> ilog2 y"
proof
  assume "2 ^ 1024 \<le> y"
  with ilog2_bounds(2) [OF assms] have "(2::rat) ^ 1024 < 2 powi (ilog2 y + 1)" by linarith
  then have "(2::rat) powi 1024 < 2 powi (ilog2 y + 1)" by simp
  then have "1024 < ilog2 y + 1" by (rule powi_less_cancel)
  then show "1024 \<le> ilog2 y" by simp
next
  assume "1024 \<le> ilog2 y"
  then have "(2::rat) powi 1024 \<le> 2 powi (ilog2 y)" by (rule powi_mono)
  with ilog2_bounds(1) [OF assms] have "(2::rat) powi 1024 \<le> y" by linarith
  then show "2 ^ 1024 \<le> y" by simp
qed

lemma fl_code [code]:
  "fl x =
     (if x = 0 then Num 0
      else
        let a = \<bar>x\<bar>;
            e = max (ilog2 a - 52) (- 1074);
            m = round_ties_even (a / 2 powi e);
            y = of_int m * 2 powi e
        in if 0 < m \<and> 1024 \<le> ilog2 y then (if 0 < x then PosInf else NegInf)
           else Num (sgn x * y))"
proof (cases "x = 0")
  case True
  then show ?thesis by (simp add: fl_def)
next
  case False
  define e where "e = max (ilog2 \<bar>x\<bar> - 52) (- 1074)"
  define m where "m = round_ties_even (\<bar>x\<bar> / 2 powi e)"
  define y where "y = of_int m * (2::rat) powi e"
  have pe: "0 < (2::rat) powi e" by (rule powi_pos)
  have "0 \<le> \<bar>x\<bar> / 2 powi e" using pe by simp
  then have m0: "0 \<le> m" unfolding m_def by (rule round_ties_even_nonneg)
  have "(2 ^ 1024 \<le> y) = (0 < m \<and> 1024 \<le> ilog2 y)"
  proof (cases "m = 0")
    case True
    then show ?thesis by (simp add: y_def)
  next
    case False
    with m0 have "0 < m" by simp
    then have "0 < y" unfolding y_def using pe by simp
    from overflow_iff [OF this] \<open>0 < m\<close> show ?thesis by simp
  qed
  then show ?thesis
    using False by (simp add: fl_def Let_def e_def [symmetric] m_def [symmetric] y_def [symmetric])
qed

lemma tiny_le: "(2::rat) powi (- 1022) \<le> 1 / 200"
proof -
  have "(2::rat) powi (- 1022) \<le> 2 powi (- 8)" by (rule powi_mono) simp
  also have "\<dots> = 1 / 2 ^ 8" by (simp add: power_int_minus_divide)
  also have "\<dots> \<le> 1 / 200" by simp
  finally show ?thesis .
qed

lemma big_less: "(10::rat) ^ 13 < 2 ^ 1023"
proof -
  have "(10::rat) ^ 13 < 2 ^ 44" by simp
  also have "\<dots> \<le> 2 ^ 1023" by (rule power_increasing) simp_all
  finally show ?thesis .
qed

text \<open>Rounding a value between 1/200 and 10^13: relative error at most 2^-53.\<close>

lemma fl_money_range:
  assumes "x = 0 \<or> 1 / 200 \<le> x" and "x \<le> 10 ^ 13"
  shows "\<exists>y. fl x = Num y \<and> \<bar>y - x\<bar> \<le> x / 9007199254740992 \<and> 0 \<le> y"
proof (cases "x = 0")
  case True
  then show ?thesis by (simp add: fl_def)
next
  case False
  with assms have "2 powi (- 1022) \<le> x" "x < 2 ^ 1023"
    using tiny_le big_less by linarith+
  from fl_rel_error [OF this] obtain y where
    "fl x = Num y" "\<bar>y - x\<bar> \<le> x / 2 ^ 53" "0 < y" by blast
  moreover have "(2::rat) ^ 53 = 9007199254740992" by simp
  ultimately show ?thesis by (auto intro: less_imp_le)
qed

lemma near_step:
  assumes X0: "0 \<le> X" and Xup: "X \<le> 1000000000000"
    and Xcases: "X = 0 \<or> 1 / 100 \<le> X"
    and pX: "\<bar>p - X\<bar> \<le> X / 9007199254740992"
  shows "\<exists>s. fl p = Num s \<and> 0 \<le> s \<and> s < 10 ^ 21 \<and> \<bar>s - X\<bar> < 1 / 200"
proof -
  have r1: "p = 0 \<or> 1 / 200 \<le> p" using Xcases pX by linarith
  have "p \<le> 10000000000000" using pX Xup X0 by linarith
  then have r2: "p \<le> 10 ^ 13" by simp
  from fl_money_range [OF r1 r2] obtain s where
    s: "fl p = Num s" "\<bar>s - p\<bar> \<le> p / 9007199254740992" "0 \<le> s" by blast
  have near: "\<bar>s - X\<bar> < 1 / 200" using s(2) pX Xup X0 by linarith
  then have "s < 1000000000000000000000" using Xup by linarith
  then have "s < 10 ^ 21" by simp
  with s(1,3) near show ?thesis by blast
qed

lemma cents_cases: "(of_nat n :: rat) / 100 = 0 \<or> 1 / 100 \<le> (of_nat n :: rat) / 100"
proof (cases "n = 0")
  case True
  then show ?thesis by simp
next
  case False
  then have "1 \<le> n" by simp
  then have "(of_nat 1 :: rat) \<le> of_nat n" by (simp only: of_nat_le_iff)
  then show ?thesis by simp
qed

lemma cents_bound:
  assumes "n \<le> 10 ^ 14"
  shows "(of_nat n :: rat) / 100 \<le> 1000000000000"
proof -
  have "(of_nat n :: rat) \<le> of_nat (10 ^ 14)" using assms by (simp only: of_nat_le_iff)
  then show ?thesis by simp
qed

lemma of_cents_val:
  assumes "n \<le> 10 ^ 14"
  shows "\<exists>y. of_cents n = Num y
           \<and> \<bar>y - of_nat n / 100\<bar> \<le> of_nat n / 100 / 9007199254740992 \<and> 0 \<le> y"
proof -
  have r1: "(of_nat n :: rat) / 100 = 0 \<or> 1 / 200 \<le> (of_nat n :: rat) / 100"
    using cents_cases [of n] by linarith
  have "(of_nat n :: rat) / 100 \<le> 10000000000000" using cents_bound [OF assms] by linarith
  then have r2: "(of_nat n :: rat) / 100 \<le> 10 ^ 13" by simp
  from fl_money_range [OF r1 r2] show ?thesis unfolding of_cents_def .
qed

lemma toFixed2_cents_near:
  assumes "0 \<le> s" and "\<bar>s - of_int n / 100\<bar> < 1 / 200"
  shows "toFixed2_cents s = n"
proof -
  have "of_int n \<le> s * 100 + 1 / 2" "s * 100 + 1 / 2 < of_int n + 1"
    using assms(2) by linarith+
  then have "\<lfloor>s * 100 + 1 / 2\<rfloor> = n" by (intro floor_unique)
  with assms(1) show ?thesis by (simp add: toFixed2_cents_def)
qed

lemma Number_toFixed2_near:
  assumes "0 \<le> s" and "s < 10 ^ 21" and "\<bar>s - of_nat n / 100\<bar> < 1 / 200"
  shows "Number_toFixed2 s = of_cents n"
proof -
  have "\<bar>s - of_int (int n) / 100\<bar> < 1 / 200" using assms(3) by simp
  with assms(1) have c: "toFixed2_cents s = int n" by (rule toFixed2_cents_near)
  show ?thesis
  proof (cases "s = 0")
    case True
    with assms(3) have "(of_nat n :: rat) < of_nat 1" by simp
    then have "n < 1" by (simp only: of_nat_less_iff)
    then have "n = 0" by simp
    with True c show ?thesis by (simp add: Number_toFixed2_def of_cents_def)
  next
    case False
    with assms(1) have "0 < s" by simp
    with assms(2) c show ?thesis by (simp add: Number_toFixed2_def of_cents_def)
  qed
qed

text \<open>The sum of two Numbers that hold whole cents is within half a cent of the exact sum.\<close>

lemma add_cents_near:
  assumes "i + j \<le> 10 ^ 14" and "of_cents i = Num a" and "of_cents j = Num b"
  shows "\<exists>s. fl (a + b) = Num s \<and> 0 \<le> s \<and> s < 10 ^ 21
           \<and> \<bar>s - of_nat (i + j) / 100\<bar> < 1 / 200"
proof -
  define u :: rat where "u = of_nat i / 100"
  define v :: rat where "v = of_nat j / 100"
  have ij: "i \<le> 10 ^ 14" "j \<le> 10 ^ 14" using assms(1) by simp_all
  from of_cents_val [OF ij(1)] assms(2)
  have a: "\<bar>a - u\<bar> \<le> u / 9007199254740992" unfolding u_def by auto
  from of_cents_val [OF ij(2)] assms(3)
  have b: "\<bar>b - v\<bar> \<le> v / 9007199254740992" unfolding v_def by auto
  have X: "of_nat (i + j) / 100 = u + v" unfolding u_def v_def by (simp add: add_divide_distrib)
  have X0: "0 \<le> u + v" unfolding u_def v_def by simp
  have Xup: "u + v \<le> 1000000000000" using cents_bound [OF assms(1)] unfolding X .
  have Xcases: "u + v = 0 \<or> 1 / 100 \<le> u + v" using cents_cases [of "i + j"] unfolding X .
  have "(u + v) / 9007199254740992 = u / 9007199254740992 + v / 9007199254740992"
    by (rule add_divide_distrib)
  with a b have pX: "\<bar>a + b - (u + v)\<bar> \<le> (u + v) / 9007199254740992" by linarith
  from near_step [OF X0 Xup Xcases pX] show ?thesis unfolding X .
qed

text \<open>The same for the product of such a Number with a natural number.\<close>

lemma mul_cents_near:
  assumes "i * k \<le> 10 ^ 14" and "i \<le> 10 ^ 14" and "of_cents i = Num a"
  shows "\<exists>s. fl (a * of_nat k) = Num s \<and> 0 \<le> s \<and> s < 10 ^ 21
           \<and> \<bar>s - of_nat (i * k) / 100\<bar> < 1 / 200"
proof -
  define u :: rat where "u = of_nat i / 100"
  define X :: rat where "X = u * of_nat k"
  from of_cents_val [OF assms(2)] assms(3)
  have a: "\<bar>a - u\<bar> \<le> u / 9007199254740992" unfolding u_def by auto
  have Xeq: "of_nat (i * k) / 100 = X" unfolding X_def u_def by simp
  have X0: "0 \<le> X" unfolding X_def u_def by simp
  have Xup: "X \<le> 1000000000000" using cents_bound [OF assms(1)] unfolding Xeq .
  have Xcases: "X = 0 \<or> 1 / 100 \<le> X" using cents_cases [of "i * k"] unfolding Xeq .
  have "\<bar>a - u\<bar> * of_nat k \<le> u / 9007199254740992 * of_nat k"
    using a by (intro mult_right_mono) simp_all
  moreover have "\<bar>a - u\<bar> * of_nat k = \<bar>a * of_nat k - X\<bar>"
  proof -
    have "\<bar>a - u\<bar> * (of_nat k :: rat) = \<bar>a - u\<bar> * \<bar>of_nat k\<bar>" by simp
    also have "\<dots> = \<bar>(a - u) * of_nat k\<bar>" by (simp only: abs_mult)
    also have "(a - u) * of_nat k = a * of_nat k - X" unfolding X_def by (rule left_diff_distrib)
    finally show ?thesis .
  qed
  moreover have "u / 9007199254740992 * of_nat k = X / 9007199254740992"
    unfolding X_def by simp
  ultimately have pX: "\<bar>a * of_nat k - X\<bar> \<le> X / 9007199254740992" by simp
  from near_step [OF X0 Xup Xcases pX] show ?thesis unfolding Xeq .
qed

section \<open>The state machine\<close>

lemma toSubmittedFrom_iff: "toSubmittedFrom s = Inr t \<longleftrightarrow> s = Draft \<and> t = Submitted"
  by (auto simp: toSubmittedFrom_def)

lemma toApprovedFrom_iff: "toApprovedFrom s = Inr t \<longleftrightarrow> s = Submitted \<and> t = Approved"
  by (auto simp: toApprovedFrom_def)

lemma toShippedFrom_iff: "toShippedFrom s = Inr t \<longleftrightarrow> s = Approved \<and> t = Shipped"
  by (auto simp: toShippedFrom_def)

lemma toCompletedFrom_iff: "toCompletedFrom s = Inr t \<longleftrightarrow> s = Shipped \<and> t = Completed"
  by (auto simp: toCompletedFrom_def)

lemma toCancelledFrom_iff: "toCancelledFrom s = Inr t \<longleftrightarrow> s \<noteq> Completed \<and> t = Cancelled"
  by (auto simp: toCancelledFrom_def)

text \<open>
  C4. The transition table holds exactly. Each operation returns its target state from
  its required source state and from no other: \<open>toSubmittedFrom\<close> returns Submitted iff
  the current state is Draft, \<open>toApprovedFrom\<close> returns Approved iff it is Submitted,
  \<open>toShippedFrom\<close> returns Shipped iff it is Approved, \<open>toCompletedFrom\<close> returns
  Completed iff it is Shipped, \<open>toCancelledFrom\<close> returns Cancelled iff it is not
  Completed; in every other case the operation fails with ValidationError, and no
  operation ever returns a state other than its target.
\<close>

theorem transition_table:
  "(toSubmittedFrom s = (if s = Draft then Inr Submitted else Inl ValidationError))
   \<and> (toApprovedFrom s = (if s = Submitted then Inr Approved else Inl ValidationError))
   \<and> (toShippedFrom s = (if s = Approved then Inr Shipped else Inl ValidationError))
   \<and> (toCompletedFrom s = (if s = Shipped then Inr Completed else Inl ValidationError))
   \<and> (toCancelledFrom s = (if s \<noteq> Completed then Inr Cancelled else Inl ValidationError))"
  by (simp add: toSubmittedFrom_def toApprovedFrom_def toShippedFrom_def
        toCompletedFrom_def toCancelledFrom_def)

theorem transition_table_witness:
  "toSubmittedFrom Draft = Inr Submitted \<and> toSubmittedFrom Approved = Inl ValidationError
   \<and> toApprovedFrom Submitted = Inr Approved \<and> toApprovedFrom Draft = Inl ValidationError
   \<and> toShippedFrom Approved = Inr Shipped \<and> toShippedFrom Shipped = Inl ValidationError
   \<and> toCompletedFrom Shipped = Inr Completed \<and> toCompletedFrom Cancelled = Inl ValidationError
   \<and> toCancelledFrom Shipped = Inr Cancelled \<and> toCancelledFrom Completed = Inl ValidationError"
  using transition_table [of Draft] transition_table [of Approved]
    transition_table [of Submitted] transition_table [of Shipped]
    transition_table [of Cancelled] transition_table [of Completed]
  by simp

text \<open>
  C2, as amended. Completed is terminal: each of the five transition operations fails
  with ValidationError on it. On Cancelled the four operations \<open>toSubmittedFrom\<close>,
  \<open>toApprovedFrom\<close>, \<open>toShippedFrom\<close> and \<open>toCompletedFrom\<close> fail with ValidationError,
  while \<open>toCancelledFrom\<close> succeeds and returns Cancelled again; so no operation leads
  from Completed or Cancelled to another state.
\<close>

theorem terminal_states:
  assumes "s = Completed \<or> s = Cancelled"
  shows "toSubmittedFrom s = Inl ValidationError
         \<and> toApprovedFrom s = Inl ValidationError
         \<and> toShippedFrom s = Inl ValidationError
         \<and> toCompletedFrom s = Inl ValidationError
         \<and> toCancelledFrom s = (if s = Completed then Inl ValidationError else Inr s)"
  using assms
  by (auto simp: toSubmittedFrom_def toApprovedFrom_def toShippedFrom_def
        toCompletedFrom_def toCancelledFrom_def)

theorem terminal_states_witness:
  "toSubmittedFrom Cancelled = Inl ValidationError
   \<and> toApprovedFrom Cancelled = Inl ValidationError
   \<and> toShippedFrom Cancelled = Inl ValidationError
   \<and> toCompletedFrom Cancelled = Inl ValidationError
   \<and> toCancelledFrom Cancelled = Inr Cancelled
   \<and> toCancelledFrom Completed = Inl ValidationError"
  using terminal_states [of Cancelled] terminal_states [of Completed] by simp

text \<open>
  C2 as stated fails: \<open>toCancelledFrom\<close> applied to Cancelled does not fail, it returns
  Cancelled.
\<close>

theorem terminal_states_counterexample:
  "toCancelledFrom Cancelled = Inr Cancelled \<and> toCancelledFrom Cancelled \<noteq> Inl ValidationError"
  by (simp add: toCancelledFrom_def)

section \<open>Construction of the aggregate\<close>

lemma error_eq: "(e::error) = ValidationError"
  by (cases e) simp

lemma example_order_created:
  "PurchaseOrder_new example_uuid 0 example_supplier (JCurrency USD) JUndefined = Inr example_order"
  by (simp add: PurchaseOrder_new_def example_order_def example_supplier_def)

lemma PurchaseOrder_new_iff:
  "PurchaseOrder_new uuid now supplier cur odate =
     (if truthy supplier
      then Inr \<lparr>po_id = uuid, po_supplierId = supplier, po_currency = cur,
                po_orderDate = (case odate of JDateTime d \<Rightarrow> d | _ \<Rightarrow> DateTime now),
                po_items = [], po_state = Draft\<rparr>
      else Inl ValidationError)"
  by (simp add: PurchaseOrder_new_def)

text \<open>
  C1. The claim asks construction to fail when the currency is not a Currency instance.
  The constructor's check \<^verbatim>\<open>!currency instanceof Currency\<close> tests the boolean
  \<^verbatim>\<open>!currency\<close>, which is never a Currency, so it never throws: called with a supplier
  and the string \<^verbatim>\<open>'USD'\<close> in place of a Currency, the constructor returns a Draft order
  holding that string as its currency.
\<close>

theorem PurchaseOrder_new_unchecked_currency:
  "PurchaseOrder_new example_uuid 0 example_supplier (JStr ''USD'') JUndefined =
     Inr \<lparr>po_id = example_uuid, po_supplierId = example_supplier, po_currency = JStr ''USD'',
          po_orderDate = DateTime 0, po_items = [], po_state = Draft\<rparr>
   \<and> \<not> instanceof_Currency (JStr ''USD'')"
  by (simp add: PurchaseOrder_new_def example_supplier_def)

section \<open>Reachable states of the aggregate\<close>

lemma addItem_state: "po_state (snd (addItem pid qty price po)) = po_state po"
  by (simp add: addItem_def split: sum.splits)

lemma new_state:
  "PurchaseOrder_new uuid now supplier cur odate = Inr po \<Longrightarrow> po_state po = Draft"
  by (auto simp: PurchaseOrder_new_def split: if_splits)

lemma after_state:
  "po_state po = Draft \<or> po_state po = Cancelled \<Longrightarrow>
   po_state (after opn po) = Draft \<or> po_state (after opn po) = Cancelled"
  by (cases opn)
     (auto simp: addItem_state approve_def ship_def complete_def cancel_def transition_def
        toApprovedFrom_def toShippedFrom_def toCompletedFrom_def toCancelledFrom_def)

lemma reachable_Draft_or_Cancelled:
  "reachable po \<Longrightarrow> po_state po = Draft \<or> po_state po = Cancelled"
proof (induction rule: reachable.induct)
  case (created uuid now supplier cur odate po)
  then show ?case by (simp add: new_state)
next
  case (called po opn)
  from called.IH show ?case by (rule after_state)
qed

text \<open>
  C3. Every PurchaseOrder reachable from the constructor by any sequence of public
  operations (addItem, approve, ship, complete, cancel, calculateTotalPrice, accessors;
  each call either returning or throwing) is in state Draft or Cancelled. Consequently
  approve, ship and complete fail with ValidationError on every reachable order, and
  leave it as it was.
\<close>

theorem reachable_state:
  assumes "reachable po"
  shows "(po_state po = Draft \<or> po_state po = Cancelled)
         \<and> approve po = (Inl ValidationError, po)
         \<and> ship po = (Inl ValidationError, po)
         \<and> complete po = (Inl ValidationError, po)"
proof -
  from assms have "po_state po = Draft \<or> po_state po = Cancelled"
    by (rule reachable_Draft_or_Cancelled)
  then show ?thesis
    by (auto simp: approve_def ship_def complete_def transition_def
          toApprovedFrom_def toShippedFrom_def toCompletedFrom_def)
qed

theorem reachable_state_witness:
  "reachable (after Cancel (after Approve example_order))
   \<and> po_state (after Cancel (after Approve example_order)) = Cancelled
   \<and> approve (after Cancel (after Approve example_order))
       = (Inl ValidationError, after Cancel (after Approve example_order))"
proof -
  have r: "reachable (after Cancel (after Approve example_order))"
    by (intro reachable.called reachable.created [OF example_order_created])
  have s: "po_state (after Cancel (after Approve example_order)) = Cancelled"
    by (simp add: example_order_def approve_def cancel_def transition_def
          toApprovedFrom_def toCancelledFrom_def)
  from reachable_state [OF r] r s show ?thesis by simp
qed

section \<open>Atomicity of the mutators\<close>

lemma example_items_order_eq:
  "example_items_order =
     \<lparr>po_id = example_uuid, po_supplierId = example_supplier, po_currency = JCurrency USD,
      po_orderDate = DateTime 0,
      po_items =
        [\<lparr>orderId = example_uuid,
          productId = ProductId ''1b9d6bcd-bbfd-4b2d-9b5d-ab8dfbbd4bed'',
          quantity = Num 2, unitPrice = \<lparr>amount = Num 10, currency = USD\<rparr>\<rparr>,
         \<lparr>orderId = example_uuid,
          productId = ProductId ''1b9d6bcd-bbfd-4b2d-9b5d-ab8dfbbd4bed'',
          quantity = Num 1, unitPrice = \<lparr>amount = Num 5, currency = USD\<rparr>\<rparr>],
      po_state = Draft\<rparr>"
  by code_simp

text \<open>
  C5. Every mutator of PurchaseOrder (addItem, approve, ship, complete, cancel) is
  atomic: a call either returns or throws ValidationError (the only error there is), and
  when it throws, the aggregate it leaves behind is the aggregate it was called on, with
  every field (id, supplierId, currency, orderDate, items, state) unchanged. This holds
  for addItem whatever made it throw, an invalid productId or quantity included.
\<close>

theorem mutators_atomic:
  "(fst (addItem pid qty price po) = Inl e \<longrightarrow> snd (addItem pid qty price po) = po)
   \<and> (fst (approve po) = Inl e \<longrightarrow> snd (approve po) = po)
   \<and> (fst (ship po) = Inl e \<longrightarrow> snd (ship po) = po)
   \<and> (fst (complete po) = Inl e \<longrightarrow> snd (complete po) = po)
   \<and> (fst (cancel po) = Inl e \<longrightarrow> snd (cancel po) = po)"
  by (auto simp: addItem_def approve_def ship_def complete_def cancel_def transition_def
        split: sum.splits if_splits)

theorem mutators_atomic_witness:
  "fst (addItem (JStr ''not a product id'') (JNum (Num 1001)) (JNum (Num 10)) example_items_order)
     = Inl ValidationError
   \<and> snd (addItem (JStr ''not a product id'') (JNum (Num 1001)) (JNum (Num 10)) example_items_order)
     = example_items_order
   \<and> length (po_items example_items_order) = 2
   \<and> approve example_items_order = (Inl ValidationError, example_items_order)
   \<and> ship example_items_order = (Inl ValidationError, example_items_order)
   \<and> complete example_items_order = (Inl ValidationError, example_items_order)
   \<and> cancel (example_items_order\<lparr>po_state := Completed\<rparr>)
       = (Inl ValidationError, example_items_order\<lparr>po_state := Completed\<rparr>)"
proof -
  have 1: "fst (addItem (JStr ''not a product id'') (JNum (Num 1001)) (JNum (Num 10))
             example_items_order) = Inl ValidationError"
    unfolding example_items_order_eq
    by (simp add: addItem_def isDraft_def MAX_ITEMS_def Money_new_def PurchaseOrderItem_new_def)
  have 2: "fst (approve example_items_order) = Inl ValidationError"
    "fst (ship example_items_order) = Inl ValidationError"
    "fst (complete example_items_order) = Inl ValidationError"
    unfolding example_items_order_eq
    by (simp_all add: approve_def ship_def complete_def transition_def toApprovedFrom_def
          toShippedFrom_def toCompletedFrom_def)
  have 3: "fst (cancel (example_items_order\<lparr>po_state := Completed\<rparr>)) = Inl ValidationError"
    by (simp add: cancel_def transition_def toCancelledFrom_def)
  have 4: "length (po_items example_items_order) = 2"
    unfolding example_items_order_eq by simp
  from 1 2 3 4
    mutators_atomic [of "JStr ''not a product id''" "JNum (Num 1001)" "JNum (Num 10)"
      example_items_order ValidationError]
    mutators_atomic [of "JStr ''not a product id''" "JNum (Num 1001)" "JNum (Num 10)"
      "example_items_order\<lparr>po_state := Completed\<rparr>" ValidationError]
  show ?thesis by (simp add: prod_eq_iff)
qed

section \<open>Construction of order items\<close>

lemma PurchaseOrderItem_new_Inr_iff:
  "(\<exists>item. PurchaseOrderItem_new oid pid qty price = Inr item) \<longleftrightarrow>
     typeof_string oid \<and> truthy oid \<and> instanceof_ProductId pid
     \<and> Number_isInteger qty \<and> 0 < num_val qty \<and> num_val qty \<le> 1000
     \<and> instanceof_Money price"
  by (auto simp: PurchaseOrderItem_new_def)

lemma nonempty_string_iff: "typeof_string v \<and> truthy v \<longleftrightarrow> (\<exists>s. v = JStr s \<and> s \<noteq> [])"
  by (cases v) auto

lemma instanceof_ProductId_iff: "instanceof_ProductId v \<longleftrightarrow> (\<exists>p. v = JProductId p)"
  by (cases v) auto

lemma instanceof_Money_iff: "instanceof_Money v \<longleftrightarrow> (\<exists>m. v = JMoney m)"
  by (cases v) auto

lemma instanceof_Currency_iff: "instanceof_Currency v \<longleftrightarrow> (\<exists>c. v = JCurrency c)"
  by (cases v) auto

lemma Number_isFinite_iff: "Number_isFinite v \<longleftrightarrow> (\<exists>x. v = JNum (Num x))"
  by (induction v rule: Number_isFinite.induct) auto

lemma integer_quantity_iff:
  "Number_isInteger v \<and> 0 < num_val v \<and> num_val v \<le> 1000 \<longleftrightarrow>
     (\<exists>n::int. v = JNum (Num (of_int n)) \<and> 1 \<le> n \<and> n \<le> 1000)"
proof
  assume l: "Number_isInteger v \<and> 0 < num_val v \<and> num_val v \<le> 1000"
  then obtain x where v: "v = JNum (Num x)"
    by (induction v rule: Number_isInteger.induct) auto
  with l have x: "of_int \<lfloor>x\<rfloor> = x" "0 < x" "x \<le> 1000" by auto
  define n where "n = \<lfloor>x\<rfloor>"
  have xn: "x = of_int n" unfolding n_def using x(1) by (rule sym)
  from x(2) x(3) have "1 \<le> n" "n \<le> 1000" unfolding xn by simp_all
  with v xn show "\<exists>n::int. v = JNum (Num (of_int n)) \<and> 1 \<le> n \<and> n \<le> 1000"
    by blast
next
  assume "\<exists>n::int. v = JNum (Num (of_int n)) \<and> 1 \<le> n \<and> n \<le> 1000"
  then obtain n :: int where "v = JNum (Num (of_int n))" "1 \<le> n" "n \<le> 1000" by blast
  then show "Number_isInteger v \<and> 0 < num_val v \<and> num_val v \<le> 1000" by simp
qed

text \<open>
  C8. Construction of an order item succeeds exactly when orderId is a non-empty string,
  productId is a ProductId instance, quantity is an integer Number from 1 to 1000, and
  unitPrice is a Money instance; otherwise it fails with ValidationError. In particular,
  with the other three arguments valid, quantity 1000 is accepted and quantities 1001 and
  0 are rejected.
\<close>

theorem PurchaseOrderItem_new_validation:
  "((\<exists>item. PurchaseOrderItem_new oid pid qty price = Inr item) \<longleftrightarrow>
      (\<exists>s. oid = JStr s \<and> s \<noteq> []) \<and> (\<exists>p. pid = JProductId p)
      \<and> (\<exists>n::int. qty = JNum (Num (of_int n)) \<and> 1 \<le> n \<and> n \<le> 1000)
      \<and> (\<exists>m. price = JMoney m))
   \<and> ((\<nexists>item. PurchaseOrderItem_new oid pid qty price = Inr item) \<longleftrightarrow>
        PurchaseOrderItem_new oid pid qty price = Inl ValidationError)
   \<and> (s \<noteq> [] \<longrightarrow>
        PurchaseOrderItem_new (JStr s) (JProductId p) (JNum (Num 1000)) (JMoney m) =
          Inr \<lparr>orderId = s, productId = p, quantity = Num 1000, unitPrice = m\<rparr>
        \<and> PurchaseOrderItem_new (JStr s) (JProductId p) (JNum (Num 1001)) (JMoney m) =
            Inl ValidationError
        \<and> PurchaseOrderItem_new (JStr s) (JProductId p) (JNum (Num 0)) (JMoney m) =
            Inl ValidationError)"
proof (intro conjI impI)
  show "(\<exists>item. PurchaseOrderItem_new oid pid qty price = Inr item) \<longleftrightarrow>
      (\<exists>s. oid = JStr s \<and> s \<noteq> []) \<and> (\<exists>p. pid = JProductId p)
      \<and> (\<exists>n::int. qty = JNum (Num (of_int n)) \<and> 1 \<le> n \<and> n \<le> 1000)
      \<and> (\<exists>m. price = JMoney m)"
    unfolding PurchaseOrderItem_new_Inr_iff
    using nonempty_string_iff [of oid] instanceof_ProductId_iff [of pid]
      instanceof_Money_iff [of price] integer_quantity_iff [of qty]
    by blast
  show "(\<nexists>item. PurchaseOrderItem_new oid pid qty price = Inr item) \<longleftrightarrow>
        PurchaseOrderItem_new oid pid qty price = Inl ValidationError"
    by (cases "PurchaseOrderItem_new oid pid qty price") (auto simp: error_eq)
qed (simp_all add: PurchaseOrderItem_new_def)

theorem PurchaseOrderItem_new_validation_witness:
  "(\<exists>item. PurchaseOrderItem_new (JStr example_uuid) example_product (JNum (Num (of_int 1000)))
            (JMoney \<lparr>amount = Num 5, currency = USD\<rparr>) = Inr item)
   \<and> PurchaseOrderItem_new (JStr example_uuid) example_product (JNum (Num (1 / 2)))
        (JMoney \<lparr>amount = Num 5, currency = USD\<rparr>) = Inl ValidationError
   \<and> PurchaseOrderItem_new (JStr example_uuid) example_product (JNum (Num 1001))
        (JMoney \<lparr>amount = Num 5, currency = USD\<rparr>) = Inl ValidationError"
proof -
  have n: "example_uuid \<noteq> []" by (simp add: example_uuid_def)
  have h: "\<nexists>n::int. (1 / 2 :: rat) = of_int n"
  proof
    assume "\<exists>n::int. (1 / 2 :: rat) = of_int n"
    then obtain n :: int where "(1 / 2 :: rat) = of_int n" ..
    then have "(of_int (2 * n) :: rat) = of_int 1" by simp
    then have "2 * n = 1" by (simp only: of_int_eq_iff)
    then show False by presburger
  qed
  from n h
    PurchaseOrderItem_new_validation [of "JStr example_uuid" example_product
      "JNum (Num (of_int 1000))" "JMoney \<lparr>amount = Num 5, currency = USD\<rparr>"]
    PurchaseOrderItem_new_validation [of "JStr example_uuid" example_product
      "JNum (Num (1 / 2))" "JMoney \<lparr>amount = Num 5, currency = USD\<rparr>"]
    PurchaseOrderItem_new_validation [of _ _ _ _ example_uuid
      "ProductId ''1b9d6bcd-bbfd-4b2d-9b5d-ab8dfbbd4bed''" "\<lparr>amount = Num 5, currency = USD\<rparr>"]
  show ?thesis by (simp add: example_product_def)
qed

section \<open>The total price\<close>

lemma foldl_Inl:
  "foldl (\<lambda>acc item. case acc of Inl e \<Rightarrow> Inl e | Inr t \<Rightarrow> f t item) (Inl e) xs = Inl e"
  by (induction xs) simp_all

lemma reduce_foldl:
  "reduce f acc xs = foldl (\<lambda>a item. case a of Inl e \<Rightarrow> Inl e | Inr t \<Rightarrow> f t item) (Inr acc) xs"
proof (induction xs arbitrary: acc)
  case Nil
  show ?case by simp
next
  case (Cons x xs)
  show ?case
  proof (cases "f acc x")
    case (Inl e)
    then show ?thesis by (simp add: foldl_Inl)
  next
    case (Inr t)
    then show ?thesis by (simp add: Cons.IH)
  qed
qed

lemma add_subtotal_eq:
  "add_subtotal = (\<lambda>t item. case calculateSubtotal item of Inl e \<Rightarrow> Inl e
          | Inr s \<Rightarrow> Money_add t (JMoney s))"
  by (intro ext) (simp add: add_subtotal_def)

lemma calculateTotalPrice_fold:
  "calculateTotalPrice po = (if po_items po = [] then Inl ValidationError else spec_total po)"
proof (cases "Money_new (JNum (Num 0)) (po_currency po)")
  case (Inl e)
  then show ?thesis
    by (simp add: calculateTotalPrice_def spec_total_def foldl_Inl error_eq)
next
  case (Inr z)
  show ?thesis
    unfolding calculateTotalPrice_def spec_total_def reduce_foldl add_subtotal_eq
    using Inr by simp
qed

lemma calculateTotalPrice_example:
  "calculateTotalPrice example_items_order = Inr \<lparr>amount = Num 25, currency = Currency ''USD''\<rparr>"
  unfolding example_items_order_eq by code_simp

text \<open>
  C6. On an order with an empty item list calculateTotalPrice fails with ValidationError.
  On a non-empty list its result is the fold of the item subtotals
  (\<open>unitPrice.multiply(quantity)\<close>) with \<open>Money.add\<close>, in item order, starting from a
  zero-amount Money in the order's currency. In particular the order in USD with items
  (quantity 2, price 10.00) and (quantity 1, price 5.00) yields 25.00 USD.
\<close>

theorem calculateTotalPrice_spec:
  "(po_items po = [] \<longrightarrow> calculateTotalPrice po = Inl ValidationError)
   \<and> (po_items po \<noteq> [] \<longrightarrow> calculateTotalPrice po = spec_total po)
   \<and> map (\<lambda>item. (quantity item, amount (unitPrice item))) (po_items example_items_order)
       = [(Num 2, Num 10), (Num 1, Num 5)]
   \<and> po_currency example_items_order = JCurrency (Currency ''USD'')
   \<and> calculateTotalPrice example_items_order
       = Inr \<lparr>amount = Num 25, currency = Currency ''USD''\<rparr>"
  using calculateTotalPrice_fold [of po] calculateTotalPrice_example
  by (simp add: example_items_order_eq USD_def)

theorem calculateTotalPrice_spec_witness:
  "calculateTotalPrice example_order = Inl ValidationError
   \<and> po_items example_items_order \<noteq> []
   \<and> spec_total example_items_order = Inr \<lparr>amount = Num 25, currency = Currency ''USD''\<rparr>"
  using calculateTotalPrice_spec [of example_order] calculateTotalPrice_spec [of example_items_order]
  by (simp add: example_order_def example_items_order_eq)

section \<open>Adding items\<close>

lemma Money_new_Num:
  "Money_new (JNum (Num x)) (JCurrency c) =
     (if x < 0 then Inl ValidationError
      else Inr \<lparr>amount = Number_toFixed2 x, currency = c\<rparr>)"
  by (simp add: Money_new_def)

lemma Money_new_Inr_iff:
  "(\<exists>m. Money_new amt cur = Inr m) \<longleftrightarrow>
     Number_isFinite amt \<and> \<not> num_val amt < 0 \<and> instanceof_Currency cur"
  by (auto simp: Money_new_def)

lemma addItem_Inr_iff:
  assumes "instanceof_Currency (po_currency po)" and "po_id po \<noteq> []"
  shows "fst (addItem pid qty price po) = Inr () \<longleftrightarrow>
           isDraft (po_state po) \<and> length (po_items po) < MAX_ITEMS
           \<and> Number_isFinite price \<and> \<not> num_val price < 0
           \<and> instanceof_ProductId pid
           \<and> Number_isInteger qty \<and> 0 < num_val qty \<and> num_val qty \<le> 1000"
proof (cases "Number_isFinite price \<and> \<not> num_val price < 0")
  case False
  then show ?thesis by (auto simp: addItem_def)
next
  case True
  with assms(1) obtain m where m: "Money_new price (po_currency po) = Inr m"
    using Money_new_Inr_iff [of price "po_currency po"] by blast
  show ?thesis
  proof (cases "PurchaseOrderItem_new (JStr (po_id po)) pid qty (JMoney m)")
    case (Inl e)
    then have "\<not> (\<exists>item. PurchaseOrderItem_new (JStr (po_id po)) pid qty (JMoney m) = Inr item)"
      by simp
    then have "\<not> (instanceof_ProductId pid
           \<and> Number_isInteger qty \<and> 0 < num_val qty \<and> num_val qty \<le> 1000)"
      unfolding PurchaseOrderItem_new_Inr_iff using assms(2) by simp
    with Inl m show ?thesis by (auto simp: addItem_def)
  next
    case (Inr item)
    then have "\<exists>item. PurchaseOrderItem_new (JStr (po_id po)) pid qty (JMoney m) = Inr item"
      by blast
    then have "instanceof_ProductId pid
           \<and> Number_isInteger qty \<and> 0 < num_val qty \<and> num_val qty \<le> 1000"
      unfolding PurchaseOrderItem_new_Inr_iff by simp
    with Inr m True show ?thesis by (auto simp: addItem_def)
  qed
qed

lemma nonneg_finite_iff:
  "Number_isFinite v \<and> \<not> num_val v < 0 \<longleftrightarrow> (\<exists>x. v = JNum (Num x) \<and> 0 \<le> x)"
  by (induction v rule: Number_isFinite.induct) auto

lemma fst_addItem_cases:
  "fst (addItem pid qty price po) = Inl ValidationError \<longleftrightarrow> fst (addItem pid qty price po) \<noteq> Inr ()"
  by (cases "fst (addItem pid qty price po)") (auto simp: error_eq)

lemma addItem_appends:
  "fst (addItem pid qty price po) = Inr () \<Longrightarrow>
   \<exists>item. snd (addItem pid qty price po) = po\<lparr>po_items := po_items po @ [item]\<rparr>"
  by (auto simp: addItem_def split: if_splits sum.splits)

text \<open>
  C7, as amended. For every PurchaseOrder whose currency is a Currency instance and whose
  id is a non-empty string, addItem fails with ValidationError exactly when the state is
  not Draft, or the item count is already 50 (or more), or unitPrice is not a
  non-negative finite number, or productId is not a ProductId instance, or quantity is not
  an integer from 1 to 1000. In particular, on a Draft order with 49 items adding a 50th
  item with a valid product id, quantity and price succeeds and makes the count 50, and
  on an order with 50 items adding a 51st fails.
\<close>

theorem addItem_fails_iff:
  assumes "instanceof_Currency (po_currency po)" and "po_id po \<noteq> []"
  shows "(fst (addItem pid qty price po) = Inl ValidationError \<longleftrightarrow>
            po_state po \<noteq> Draft
            \<or> 50 \<le> length (po_items po)
            \<or> \<not> (\<exists>x. price = JNum (Num x) \<and> 0 \<le> x)
            \<or> \<not> (\<exists>p. pid = JProductId p)
            \<or> \<not> (\<exists>n::int. qty = JNum (Num (of_int n)) \<and> 1 \<le> n \<and> n \<le> 1000))
         \<and> (po_state po = Draft \<and> length (po_items po) = 49 \<and> 0 \<le> x \<and> 1 \<le> n \<and> n \<le> 1000 \<longrightarrow>
              fst (addItem (JProductId p) (JNum (Num (of_int n))) (JNum (Num x)) po) = Inr ()
              \<and> length (po_items (snd (addItem (JProductId p) (JNum (Num (of_int n)))
                                    (JNum (Num x)) po))) = 50)
         \<and> (length (po_items po) = 50 \<longrightarrow>
              fst (addItem pid qty price po) = Inl ValidationError)"
proof -
  have iff: "fst (addItem pid' qty' price' po) = Inl ValidationError \<longleftrightarrow>
            po_state po \<noteq> Draft
            \<or> 50 \<le> length (po_items po)
            \<or> \<not> (\<exists>x. price' = JNum (Num x) \<and> 0 \<le> x)
            \<or> \<not> (\<exists>p. pid' = JProductId p)
            \<or> \<not> (\<exists>n::int. qty' = JNum (Num (of_int n)) \<and> 1 \<le> n \<and> n \<le> 1000)"
    for pid' qty' price'
    unfolding fst_addItem_cases addItem_Inr_iff [OF assms]
    using nonneg_finite_iff [of price'] instanceof_ProductId_iff [of pid']
      integer_quantity_iff [of qty']
    by (auto simp: isDraft_def MAX_ITEMS_def)
  have ok: "fst (addItem (JProductId p) (JNum (Num (of_int n))) (JNum (Num x)) po) = Inr ()"
    if "po_state po = Draft" "length (po_items po) = 49" "0 \<le> x" "1 \<le> n" "n \<le> 1000"
    using that unfolding addItem_Inr_iff [OF assms] by (simp add: isDraft_def MAX_ITEMS_def)
  have len: "length (po_items (snd (addItem (JProductId p) (JNum (Num (of_int n)))
                                    (JNum (Num x)) po))) = 50"
    if "po_state po = Draft" "length (po_items po) = 49" "0 \<le> x" "1 \<le> n" "n \<le> 1000"
    using addItem_appends [OF ok [OF that]] that(2) by auto
  from iff [of pid qty price] ok len show ?thesis by auto
qed

theorem addItem_fails_iff_witness:
  "instanceof_Currency (po_currency (order_with 49)) \<and> po_id (order_with 49) \<noteq> []
   \<and> po_state (order_with 49) = Draft \<and> length (po_items (order_with 49)) = 49
   \<and> fst (addItem example_product (JNum (Num (of_int 3))) (JNum (Num 5)) (order_with 49)) = Inr ()
   \<and> length (po_items (snd (addItem example_product (JNum (Num (of_int 3))) (JNum (Num 5))
                               (order_with 49)))) = 50
   \<and> length (po_items (order_with 50)) = 50
   \<and> fst (addItem example_product (JNum (Num (of_int 3))) (JNum (Num 5)) (order_with 50))
       = Inl ValidationError
   \<and> fst (addItem example_product (JNum (Num (of_int 3))) (JNum (Num (- 5))) (order_with 49))
       = Inl ValidationError"
proof -
  have h: "instanceof_Currency (po_currency (order_with n))" "po_id (order_with n) \<noteq> []"
    "po_state (order_with n) = Draft" "length (po_items (order_with n)) = n" for n
    by (simp_all add: order_with_def example_order_def example_uuid_def)
  from h [of 49] h [of 50]
    addItem_fails_iff [OF h(1,2), of _ _ _ 49 5 3 "ProductId ''1b9d6bcd-bbfd-4b2d-9b5d-ab8dfbbd4bed''"]
    addItem_fails_iff [OF h(1,2), of example_product "JNum (Num (of_int 3))" "JNum (Num 5)" 50]
    addItem_fails_iff [OF h(1,2), of example_product "JNum (Num (of_int 3))" "JNum (Num (- 5))" 49]
  show ?thesis by (simp add: example_product_def)
qed

text \<open>
  C7 as stated fails: on a Draft order without items, with the finite non-negative
  unitPrice 10, addItem still fails when the quantity is 0.
\<close>

theorem addItem_fails_iff_counterexample:
  "po_state example_order = Draft
   \<and> length (po_items example_order) = 0
   \<and> Number_isFinite (JNum (Num 10)) \<and> \<not> num_val (JNum (Num 10)) < 0
   \<and> fst (addItem example_product (JNum (Num 0)) (JNum (Num 10)) example_order)
       = Inl ValidationError"
  by (simp add: addItem_def example_order_def isDraft_def MAX_ITEMS_def Money_new_def
        PurchaseOrderItem_new_def USD_def)

section \<open>Construction of Money\<close>

lemma Money_new_Inl_iff:
  "Money_new amt cur = Inl ValidationError \<longleftrightarrow>
     \<not> (\<exists>x. amt = JNum (Num x) \<and> 0 \<le> x) \<or> \<not> (\<exists>c. cur = JCurrency c)"
  using nonneg_finite_iff [of amt] instanceof_Currency_iff [of cur]
  by (auto simp: Money_new_def)

lemma half_up_nearest:
  fixes x :: rat
  defines "n \<equiv> \<lfloor>x * 100 + 1 / 2\<rfloor>"
  shows "\<bar>of_int n / 100 - x\<bar> \<le> 1 / 200"
    and "\<bar>of_int n / 100 - x\<bar> \<le> \<bar>of_int k / 100 - x\<bar>"
    and "\<bar>of_int k / 100 - x\<bar> = \<bar>of_int n / 100 - x\<bar> \<Longrightarrow> k \<le> n"
proof -
  have b: "of_int n \<le> x * 100 + 1 / 2" "x * 100 + 1 / 2 < of_int n + 1"
    unfolding n_def by linarith+
  then show "\<bar>of_int n / 100 - x\<bar> \<le> 1 / 200" by linarith
  have "k \<le> n - 1 \<or> k = n \<or> n + 1 \<le> k" by linarith
  then have c: "(of_int k :: rat) \<le> of_int n - 1 \<or> k = n \<or> (of_int n :: rat) + 1 \<le> of_int k"
    by (metis of_int_le_iff of_int_diff of_int_add of_int_1)
  with b show "\<bar>of_int n / 100 - x\<bar> \<le> \<bar>of_int k / 100 - x\<bar>" by auto
  assume "\<bar>of_int k / 100 - x\<bar> = \<bar>of_int n / 100 - x\<bar>"
  with b c show "k \<le> n" by auto
qed

lemma floor_half: "\<lfloor>1 / 2 :: rat\<rfloor> = 0"
  by (intro floor_unique) simp_all

lemma Number_toFixed2_half_up:
  assumes "0 \<le> x" and "x < 10 ^ 21 \<or> x \<in> \<int>"
  shows "Number_toFixed2 x = fl (of_int \<lfloor>x * 100 + 1 / 2\<rfloor> / 100)"
proof (cases "x < 10 ^ 21")
  case True
  show ?thesis
  proof (cases "x = 0")
    case True
    then show ?thesis by (simp add: Number_toFixed2_def toFixed2_cents_def floor_half)
  next
    case False
    with assms(1) have "0 < x" by simp
    with True show ?thesis by (simp add: Number_toFixed2_def toFixed2_cents_def)
  qed
next
  case False
  with assms(2) obtain z :: int where z: "x = of_int z" by (auto elim: Ints_cases)
  have "x * 100 + 1 / 2 = of_int (z * 100) + 1 / 2" unfolding z by simp
  also have "\<lfloor>\<dots>\<rfloor> = z * 100" by (intro floor_unique) simp_all
  finally have "of_int \<lfloor>x * 100 + 1 / 2\<rfloor> / 100 = x" unfolding z by simp
  with False assms(1) show ?thesis by (simp add: Number_toFixed2_def)
qed

text \<open>
  C9. Money construction fails with ValidationError exactly when the amount is not a
  finite Number, or is negative, or the currency is not a Currency instance. For every
  valid pair the stored amount is the given amount \<open>x\<close> rounded to two decimal places:
  it is the Number for \<open>n / 100\<close>, where \<open>n / 100\<close> is a multiple of 0.01 nearest to \<open>x\<close>
  (within half a cent, no multiple is nearer, and of two nearest the larger is taken).
\<close>

theorem Money_new_rounds:
  "(Money_new amt cur = Inl ValidationError \<longleftrightarrow>
      \<not> (\<exists>x. amt = JNum (Num x) \<and> 0 \<le> x) \<or> \<not> (\<exists>c. cur = JCurrency c))
   \<and> (0 \<le> x \<and> binary64 x \<longrightarrow>
        (\<exists>n::int.
           Money_new (JNum (Num x)) (JCurrency c)
             = Inr \<lparr>amount = fl (of_int n / 100), currency = c\<rparr>
           \<and> \<bar>of_int n / 100 - x\<bar> \<le> 1 / 200
           \<and> (\<forall>k::int. \<bar>of_int n / 100 - x\<bar> \<le> \<bar>of_int k / 100 - x\<bar>)
           \<and> (\<forall>k::int. \<bar>of_int k / 100 - x\<bar> = \<bar>of_int n / 100 - x\<bar> \<longrightarrow> k \<le> n)))"
proof (intro conjI impI)
  show "Money_new amt cur = Inl ValidationError \<longleftrightarrow>
      \<not> (\<exists>x. amt = JNum (Num x) \<and> 0 \<le> x) \<or> \<not> (\<exists>c. cur = JCurrency c)"
    by (rule Money_new_Inl_iff)
next
  assume a: "0 \<le> x \<and> binary64 x"
  have "x < 10 ^ 21 \<or> x \<in> \<int>"
  proof (cases "x < 10 ^ 21")
    case False
    then have "2 ^ 53 \<le> x" by simp
    with a show ?thesis by (simp add: binary64_integral)
  qed simp
  with a have "Money_new (JNum (Num x)) (JCurrency c)
             = Inr \<lparr>amount = fl (of_int \<lfloor>x * 100 + 1 / 2\<rfloor> / 100), currency = c\<rparr>"
    using Number_toFixed2_half_up [of x] by (simp add: Money_new_Num)
  with half_up_nearest [where x = x]
  show "\<exists>n::int.
           Money_new (JNum (Num x)) (JCurrency c)
             = Inr \<lparr>amount = fl (of_int n / 100), currency = c\<rparr>
           \<and> \<bar>of_int n / 100 - x\<bar> \<le> 1 / 200
           \<and> (\<forall>k::int. \<bar>of_int n / 100 - x\<bar> \<le> \<bar>of_int k / 100 - x\<bar>)
           \<and> (\<forall>k::int. \<bar>of_int k / 100 - x\<bar> = \<bar>of_int n / 100 - x\<bar> \<longrightarrow> k \<le> n)"
    by blast
qed

theorem Money_new_rounds_witness:
  "Money_new (JNum (Num (- 1))) (JCurrency USD) = Inl ValidationError
   \<and> Money_new (JNum PosInf) (JCurrency USD) = Inl ValidationError
   \<and> Money_new (JNum (Num 1)) (JStr ''USD'') = Inl ValidationError
   \<and> (0::rat) \<le> 1 / 8 \<and> binary64 (1 / 8)
   \<and> Money_new (JNum (Num (1 / 8))) (JCurrency USD) = Inr \<lparr>amount = of_cents 13, currency = USD\<rparr>"
proof -
  have b: "binary64 (1 / 8)"
    by code_simp
  have e: "Money_new (JNum (Num (1 / 8))) (JCurrency USD)
             = Inr \<lparr>amount = of_cents 13, currency = USD\<rparr>"
    by code_simp
  from e b
    Money_new_rounds [of "JNum (Num (- 1))" "JCurrency USD" "1 / 8" USD]
    Money_new_rounds [of "JNum PosInf" "JCurrency USD" "1 / 8" USD]
    Money_new_rounds [of "JNum (Num 1)" "JStr ''USD''" "1 / 8" USD]
  show ?thesis by simp
qed

text \<open>Every stored amount below \<open>10^21\<close> is a Number holding whole cents.\<close>

lemma Money_new_whole_cents:
  assumes "Money_new amt cur = Inr m" and "num_val amt < 10 ^ 21"
  shows "\<exists>n. amount m = of_cents n"
proof -
  from assms(1) obtain x c where x: "amt = JNum (Num x)" "0 \<le> x" and c: "cur = JCurrency c"
    using Money_new_Inl_iff [of amt cur] by (cases "Money_new amt cur") auto
  define k where "k = toFixed2_cents x"
  have k0: "0 \<le> k" unfolding k_def toFixed2_cents_def by simp
  have "Number_toFixed2 x = of_cents (nat k)"
  proof (cases "x = 0")
    case True
    then show ?thesis
      by (simp add: Number_toFixed2_def of_cents_def k_def toFixed2_cents_def floor_half)
  next
    case False
    with x(2) have "0 < x" by simp
    with assms(2) x(1) k0 show ?thesis
      by (simp add: Number_toFixed2_def of_cents_def k_def)
  qed
  with assms(1) x c show ?thesis by (auto simp: Money_new_Num split: if_splits)
qed

lemma Money_new_zero: "Money_new (JNum (Num 0)) (JCurrency c) = Inr \<lparr>amount = of_cents 0, currency = c\<rparr>"
  by (simp add: Money_new_Num Number_toFixed2_def of_cents_def)

section \<open>Money arithmetic\<close>

lemma num_add_commute: "num_add a b = num_add b a"
  by (cases a; cases b) (simp_all add: add.commute)

lemma code_eq_iff: "code c = code d \<longleftrightarrow> c = d"
  by (cases c; cases d) simp

lemma Currency_equals_iff: "Currency_equals c (JCurrency d) \<longleftrightarrow> c = d"
  by (simp add: code_eq_iff)

lemma max_product_bounds:
  fixes i m n :: nat
  shows "i \<le> i * max 1 m * max 1 n" and "i * m \<le> i * max 1 m * max 1 n"
    and "i * n \<le> i * max 1 m * max 1 n" and "i * m * n \<le> i * max 1 m * max 1 n"
proof -
  have b: "m \<le> max 1 m" "n \<le> max 1 n" "1 \<le> max 1 m" "1 \<le> max 1 n" by simp_all
  have im: "i * m \<le> i * max 1 m" by (rule mult_le_mono2 [OF b(1)])
  have i1: "i * 1 \<le> i * max 1 m" by (rule mult_le_mono2 [OF b(3)])
  from mult_le_mono [OF i1 b(4)] show "i \<le> i * max 1 m * max 1 n" by simp
  from mult_le_mono [OF im b(4)] show "i * m \<le> i * max 1 m * max 1 n" by simp
  from mult_le_mono [OF i1 b(2)] show "i * n \<le> i * max 1 m * max 1 n" by simp
  from mult_le_mono [OF im b(2)] show "i * m * n \<le> i * max 1 m * max 1 n" .
qed

lemma Money_add_commute:
  assumes "currency a = currency b"
  shows "Money_add a (JMoney b) = Money_add b (JMoney a)"
  using assms by (simp add: num_add_commute code_eq_iff)

lemma Money_add_cross:
  assumes "currency a \<noteq> currency b"
  shows "Money_add a (JMoney b) = Inl ValidationError"
  using assms by (simp add: code_eq_iff)

lemma Money_add_cents:
  assumes cur: "currency a = currency b"
    and a: "amount a = of_cents i" and b: "amount b = of_cents j"
    and le: "i + j \<le> 10 ^ 14"
  shows "Money_add a (JMoney b) = Inr \<lparr>amount = of_cents (i + j), currency = currency a\<rparr>"
proof -
  have ij: "i \<le> 10 ^ 14" "j \<le> 10 ^ 14" using le by simp_all
  from of_cents_val [OF ij(1)] obtain x where x: "of_cents i = Num x" by blast
  from of_cents_val [OF ij(2)] obtain y where y: "of_cents j = Num y" by blast
  from add_cents_near [OF le x y] obtain s where
    s: "fl (x + y) = Num s" "0 \<le> s" "s < 10 ^ 21" "\<bar>s - of_nat (i + j) / 100\<bar> < 1 / 200"
    by blast
  from Number_toFixed2_near [OF s(2,3,4)] have "Number_toFixed2 s = of_cents (i + j)" .
  with s(1,2) cur a b x y show ?thesis
    by (simp add: code_eq_iff Money_new_Num)
qed

lemma Money_multiply_cents:
  assumes a: "amount a = of_cents i" and i: "i \<le> 10 ^ 14" and le: "i * k \<le> 10 ^ 14"
  shows "Money_multiply a (JNum (Num (of_nat k)))
           = Inr \<lparr>amount = of_cents (i * k), currency = currency a\<rparr>"
proof -
  from of_cents_val [OF i] obtain x where x: "of_cents i = Num x" by blast
  from mul_cents_near [OF le i x] obtain s where
    s: "fl (x * of_nat k) = Num s" "0 \<le> s" "s < 10 ^ 21" "\<bar>s - of_nat (i * k) / 100\<bar> < 1 / 200"
    by blast
  from Number_toFixed2_near [OF s(2,3,4)] have "Number_toFixed2 s = of_cents (i * k)" .
  with s(1,2) a x show ?thesis
    by (simp add: Money_multiply_def Money_new_Num)
qed

text \<open>A Number holding whole cents is stored unchanged.\<close>

lemma Money_new_of_cents:
  assumes "n \<le> 10 ^ 14"
  shows "Money_new (JNum (of_cents n)) (JCurrency c) = Inr \<lparr>amount = of_cents n, currency = c\<rparr>"
proof -
  from of_cents_val [OF assms] obtain y where
    y: "of_cents n = Num y" "\<bar>y - of_nat n / 100\<bar> \<le> of_nat n / 100 / 9007199254740992" "0 \<le> y"
    by blast
  have up: "(of_nat n :: rat) / 100 \<le> 1000000000000" by (rule cents_bound [OF assms])
  have "0 \<le> (of_nat n :: rat) / 100" by simp
  with y(2) up have near: "\<bar>y - of_nat n / 100\<bar> < 1 / 200" by linarith
  then have "y < 1000000000000000000000" using up by linarith
  then have "y < 10 ^ 21" by simp
  from Number_toFixed2_near [OF y(3) this near] y(1,3) show ?thesis
    by (simp add: Money_new_Num)
qed

lemma Money_add_assoc_cents:
  assumes cur: "currency a = currency b" "currency b = currency c"
    and amt: "amount a = of_cents i" "amount b = of_cents j" "amount c = of_cents k"
    and le: "i + j + k \<le> 10 ^ 14"
  shows "\<exists>ab bc. Money_add a (JMoney b) = Inr ab \<and> Money_add b (JMoney c) = Inr bc
           \<and> Money_add ab (JMoney c) = Money_add a (JMoney bc)
           \<and> Money_add ab (JMoney c)
               = Inr \<lparr>amount = of_cents (i + j + k), currency = currency a\<rparr>"
proof -
  define ab where "ab = \<lparr>amount = of_cents (i + j), currency = currency a\<rparr>"
  define bc where "bc = \<lparr>amount = of_cents (j + k), currency = currency b\<rparr>"
  have l: "i + j \<le> 10 ^ 14" "j + k \<le> 10 ^ 14" "(i + j) + k \<le> 10 ^ 14" "i + (j + k) \<le> 10 ^ 14"
    using le by simp_all
  have 1: "Money_add a (JMoney b) = Inr ab"
    unfolding ab_def by (rule Money_add_cents [OF cur(1) amt(1,2) l(1)])
  have 2: "Money_add b (JMoney c) = Inr bc"
    unfolding bc_def by (rule Money_add_cents [OF cur(2) amt(2,3) l(2)])
  have 3: "Money_add ab (JMoney c) = Inr \<lparr>amount = of_cents (i + j + k), currency = currency a\<rparr>"
    using Money_add_cents [of ab c "i + j" k] cur amt(3) l(3) by (simp add: ab_def)
  have 4: "Money_add a (JMoney bc) = Inr \<lparr>amount = of_cents (i + j + k), currency = currency a\<rparr>"
    using Money_add_cents [of a bc i "j + k"] cur amt(1) l(4) by (simp add: bc_def add.assoc)
  from 1 2 3 4 show ?thesis by simp
qed

lemma Money_multiply_twice_cents:
  assumes amt: "amount a = of_cents i" and le: "i * max 1 m * max 1 n \<le> 10 ^ 14"
  shows "\<exists>am an. Money_multiply a (JNum (Num (of_nat m))) = Inr am
           \<and> Money_multiply a (JNum (Num (of_nat n))) = Inr an
           \<and> Money_multiply am (JNum (Num (of_nat n))) = Money_multiply an (JNum (Num (of_nat m)))
           \<and> Money_multiply am (JNum (Num (of_nat n))) = Money_multiply a (JNum (Num (of_nat (m * n))))
           \<and> Money_multiply am (JNum (Num (of_nat n)))
               = Inr \<lparr>amount = of_cents (i * m * n), currency = currency a\<rparr>"
proof -
  define am where "am = \<lparr>amount = of_cents (i * m), currency = currency a\<rparr>"
  define an where "an = \<lparr>amount = of_cents (i * n), currency = currency a\<rparr>"
  have l: "i \<le> 10 ^ 14" "i * m \<le> 10 ^ 14" "i * n \<le> 10 ^ 14" "i * m * n \<le> 10 ^ 14"
    by (rule order_trans [OF max_product_bounds(1) le],
        rule order_trans [OF max_product_bounds(2) le],
        rule order_trans [OF max_product_bounds(3) le],
        rule order_trans [OF max_product_bounds(4) le])
  have 1: "Money_multiply a (JNum (Num (of_nat m))) = Inr am"
    unfolding am_def by (rule Money_multiply_cents [OF amt l(1,2)])
  have 2: "Money_multiply a (JNum (Num (of_nat n))) = Inr an"
    unfolding an_def by (rule Money_multiply_cents [OF amt l(1,3)])
  have 3: "Money_multiply am (JNum (Num (of_nat n)))
             = Inr \<lparr>amount = of_cents (i * m * n), currency = currency a\<rparr>"
    using Money_multiply_cents [of am "i * m" n] l(2,4) by (simp add: am_def)
  have 4: "Money_multiply an (JNum (Num (of_nat m)))
             = Inr \<lparr>amount = of_cents (i * m * n), currency = currency a\<rparr>"
    using Money_multiply_cents [of an "i * n" m] l(3,4) by (simp add: an_def mult_ac)
  have 5: "Money_multiply a (JNum (Num (of_nat (m * n))))
             = Inr \<lparr>amount = of_cents (i * m * n), currency = currency a\<rparr>"
    using Money_multiply_cents [of a i "m * n"] amt l(1,4) by (simp add: mult.assoc)
  from 1 2 3 4 5 show ?thesis by simp
qed

text \<open>
  C10, as amended. For Money values \<open>a\<close>, \<open>b\<close> of the same currency, \<open>a.add(b)\<close> and
  \<open>b.add(a)\<close> have the same outcome. For Money values of differing currencies, add
  always fails with ValidationError. For Money values of one currency that hold whole
  cents \<open>i\<close>, \<open>j\<close>, \<open>k\<close> with \<open>i + j + k\<close> at most \<open>10^14\<close> (amounts up to \<open>10^12\<close>),
  add is associative and yields the Number for the exact sum. Within the same bound
  multiply by natural numbers is exact in cents, so two successive multiplications by
  \<open>m\<close> and \<open>n\<close> give the same Money in either order and the same as one multiplication by
  \<open>m * n\<close>. No such law is stated for fractional multipliers or for larger amounts.
\<close>

theorem Money_arithmetic_laws:
  "(currency a = currency b \<longrightarrow> Money_add a (JMoney b) = Money_add b (JMoney a))
   \<and> (currency a \<noteq> currency b \<longrightarrow> Money_add a (JMoney b) = Inl ValidationError)
   \<and> (currency a = currency b \<and> currency b = currency c
        \<and> amount a = of_cents i \<and> amount b = of_cents j \<and> amount c = of_cents k
        \<and> i + j + k \<le> 10 ^ 14 \<longrightarrow>
        (\<exists>ab bc. Money_add a (JMoney b) = Inr ab \<and> Money_add b (JMoney c) = Inr bc
           \<and> Money_add ab (JMoney c) = Money_add a (JMoney bc)
           \<and> Money_add ab (JMoney c)
               = Inr \<lparr>amount = of_cents (i + j + k), currency = currency a\<rparr>))
   \<and> (amount a = of_cents i \<and> i * max 1 m * max 1 n \<le> 10 ^ 14 \<longrightarrow>
        (\<exists>am an. Money_multiply a (JNum (Num (of_nat m))) = Inr am
           \<and> Money_multiply a (JNum (Num (of_nat n))) = Inr an
           \<and> Money_multiply am (JNum (Num (of_nat n))) = Money_multiply an (JNum (Num (of_nat m)))
           \<and> Money_multiply am (JNum (Num (of_nat n)))
               = Money_multiply a (JNum (Num (of_nat (m * n))))
           \<and> Money_multiply am (JNum (Num (of_nat n)))
               = Inr \<lparr>amount = of_cents (i * m * n), currency = currency a\<rparr>))"
  using Money_add_commute [of a b] Money_add_cross [of a b]
    Money_add_assoc_cents [of a b c i j k] Money_multiply_twice_cents [of a i m n]
  by blast

theorem Money_arithmetic_laws_witness:
  "Money_add \<lparr>amount = of_cents 1999, currency = USD\<rparr> (JMoney \<lparr>amount = of_cents 500, currency = USD\<rparr>)
     = Money_add \<lparr>amount = of_cents 500, currency = USD\<rparr> (JMoney \<lparr>amount = of_cents 1999, currency = USD\<rparr>)
   \<and> USD \<noteq> EUR
   \<and> Money_add \<lparr>amount = of_cents 1999, currency = USD\<rparr> (JMoney \<lparr>amount = of_cents 1, currency = EUR\<rparr>)
     = Inl ValidationError
   \<and> (1999::nat) + 1 + 500 \<le> 10 ^ 14
   \<and> (\<exists>ab bc.
         Money_add \<lparr>amount = of_cents 1999, currency = USD\<rparr> (JMoney \<lparr>amount = of_cents 1, currency = USD\<rparr>)
           = Inr ab
         \<and> Money_add \<lparr>amount = of_cents 1, currency = USD\<rparr> (JMoney \<lparr>amount = of_cents 500, currency = USD\<rparr>)
           = Inr bc
         \<and> Money_add ab (JMoney \<lparr>amount = of_cents 500, currency = USD\<rparr>)
           = Money_add \<lparr>amount = of_cents 1999, currency = USD\<rparr> (JMoney bc)
         \<and> Money_add ab (JMoney \<lparr>amount = of_cents 500, currency = USD\<rparr>)
           = Inr \<lparr>amount = of_cents 2500, currency = USD\<rparr>)
   \<and> (1999::nat) * max 1 2 * max 1 3 \<le> 10 ^ 14
   \<and> (\<exists>am an.
         Money_multiply \<lparr>amount = of_cents 1999, currency = USD\<rparr> (JNum (Num 2)) = Inr am
         \<and> Money_multiply \<lparr>amount = of_cents 1999, currency = USD\<rparr> (JNum (Num 3)) = Inr an
         \<and> Money_multiply am (JNum (Num 3)) = Money_multiply an (JNum (Num 2))
         \<and> Money_multiply am (JNum (Num 3))
             = Money_multiply \<lparr>amount = of_cents 1999, currency = USD\<rparr> (JNum (Num 6))
         \<and> Money_multiply am (JNum (Num 3))
             = Inr \<lparr>amount = of_cents 11994, currency = USD\<rparr>)"
proof -
  have ne: "USD \<noteq> EUR" by (simp add: USD_def EUR_def)
  have c: "Money_add \<lparr>amount = of_cents 1999, currency = USD\<rparr> (JMoney \<lparr>amount = of_cents 500, currency = USD\<rparr>)
     = Money_add \<lparr>amount = of_cents 500, currency = USD\<rparr> (JMoney \<lparr>amount = of_cents 1999, currency = USD\<rparr>)"
    using Money_arithmetic_laws [of "\<lparr>amount = of_cents 1999, currency = USD\<rparr>"
      "\<lparr>amount = of_cents 500, currency = USD\<rparr>"]
    by (simp del: Money_add.simps)
  have a: "(\<exists>ab bc.
         Money_add \<lparr>amount = of_cents 1999, currency = USD\<rparr> (JMoney \<lparr>amount = of_cents 1, currency = USD\<rparr>)
           = Inr ab
         \<and> Money_add \<lparr>amount = of_cents 1, currency = USD\<rparr> (JMoney \<lparr>amount = of_cents 500, currency = USD\<rparr>)
           = Inr bc
         \<and> Money_add ab (JMoney \<lparr>amount = of_cents 500, currency = USD\<rparr>)
           = Money_add \<lparr>amount = of_cents 1999, currency = USD\<rparr> (JMoney bc)
         \<and> Money_add ab (JMoney \<lparr>amount = of_cents 500, currency = USD\<rparr>)
           = Inr \<lparr>amount = of_cents 2500, currency = USD\<rparr>)
   \<and> (\<exists>am an.
         Money_multiply \<lparr>amount = of_cents 1999, currency = USD\<rparr> (JNum (Num 2)) = Inr am
         \<and> Money_multiply \<lparr>amount = of_cents 1999, currency = USD\<rparr> (JNum (Num 3)) = Inr an
         \<and> Money_multiply am (JNum (Num 3)) = Money_multiply an (JNum (Num 2))
         \<and> Money_multiply am (JNum (Num 3))
             = Money_multiply \<lparr>amount = of_cents 1999, currency = USD\<rparr> (JNum (Num 6))
         \<and> Money_multiply am (JNum (Num 3))
             = Inr \<lparr>amount = of_cents 11994, currency = USD\<rparr>)"
    using Money_arithmetic_laws [of "\<lparr>amount = of_cents 1999, currency = USD\<rparr>"
      "\<lparr>amount = of_cents 1, currency = USD\<rparr>" "\<lparr>amount = of_cents 500, currency = USD\<rparr>"
      1999 1 500 2 3, THEN conjunct2, THEN conjunct2]
    by (simp del: Money_add.simps)
  from ne c a
    Money_arithmetic_laws [of "\<lparr>amount = of_cents 1999, currency = USD\<rparr>"
      "\<lparr>amount = of_cents 1, currency = EUR\<rparr>" "\<lparr>amount = of_cents 500, currency = USD\<rparr>"
      1999 1 500 2 3]
  show ?thesis by (simp del: Money_add.simps)
qed

text \<open>
  C10 as stated fails. With the Money 0.01 USD, multiplying by 0.5 and then by 2 gives
  0.02, while multiplying by 2 and then by 0.5, or once by \<open>0.5 * 2\<close>, gives 0.01. With
  the Money values \<open>2^53\<close> and 1 (both as the constructor stores them), \<open>(2^53 + 1) + 1\<close>
  gives \<open>2^53\<close> while \<open>2^53 + (1 + 1)\<close> gives \<open>2^53 + 2\<close>.
\<close>

theorem Money_arithmetic_laws_counterexample:
  "Money_new (JNum (of_cents 1)) (JCurrency USD) = Inr \<lparr>amount = of_cents 1, currency = USD\<rparr>
   \<and> Money_multiply \<lparr>amount = of_cents 1, currency = USD\<rparr> (JNum (Num (1 / 2)))
       = Inr \<lparr>amount = of_cents 1, currency = USD\<rparr>
   \<and> Money_multiply \<lparr>amount = of_cents 1, currency = USD\<rparr> (JNum (Num 2))
       = Inr \<lparr>amount = of_cents 2, currency = USD\<rparr>
   \<and> Money_multiply \<lparr>amount = of_cents 2, currency = USD\<rparr> (JNum (Num (1 / 2)))
       = Inr \<lparr>amount = of_cents 1, currency = USD\<rparr>
   \<and> Money_multiply \<lparr>amount = of_cents 1, currency = USD\<rparr> (JNum (num_mul (Num (1 / 2)) (Num 2)))
       = Inr \<lparr>amount = of_cents 1, currency = USD\<rparr>
   \<and> of_cents 1 \<noteq> of_cents 2
   \<and> Money_new (JNum (Num (2 ^ 53))) (JCurrency USD)
       = Inr \<lparr>amount = Num (2 ^ 53), currency = USD\<rparr>
   \<and> Money_new (JNum (Num 1)) (JCurrency USD) = Inr \<lparr>amount = Num 1, currency = USD\<rparr>
   \<and> Money_add \<lparr>amount = Num (2 ^ 53), currency = USD\<rparr> (JMoney \<lparr>amount = Num 1, currency = USD\<rparr>)
       = Inr \<lparr>amount = Num (2 ^ 53), currency = USD\<rparr>
   \<and> Money_add \<lparr>amount = Num 1, currency = USD\<rparr> (JMoney \<lparr>amount = Num 1, currency = USD\<rparr>)
       = Inr \<lparr>amount = Num 2, currency = USD\<rparr>
   \<and> Money_add \<lparr>amount = Num (2 ^ 53), currency = USD\<rparr> (JMoney \<lparr>amount = Num 2, currency = USD\<rparr>)
       = Inr \<lparr>amount = Num (2 ^ 53 + 2), currency = USD\<rparr>
   \<and> Num (2 ^ 53) \<noteq> Num (2 ^ 53 + 2)"
proof (intro conjI)
  show "Money_new (JNum (of_cents 1)) (JCurrency USD) = Inr \<lparr>amount = of_cents 1, currency = USD\<rparr>"
    by code_simp
  show "Money_multiply \<lparr>amount = of_cents 1, currency = USD\<rparr> (JNum (Num (1 / 2)))
       = Inr \<lparr>amount = of_cents 1, currency = USD\<rparr>"
    by code_simp
  show "Money_multiply \<lparr>amount = of_cents 1, currency = USD\<rparr> (JNum (Num 2))
       = Inr \<lparr>amount = of_cents 2, currency = USD\<rparr>"
    by code_simp
  show "Money_multiply \<lparr>amount = of_cents 2, currency = USD\<rparr> (JNum (Num (1 / 2)))
       = Inr \<lparr>amount = of_cents 1, currency = USD\<rparr>"
    by code_simp
  show "Money_multiply \<lparr>amount = of_cents 1, currency = USD\<rparr> (JNum (num_mul (Num (1 / 2)) (Num 2)))
       = Inr \<lparr>amount = of_cents 1, currency = USD\<rparr>"
    by code_simp
  show "of_cents 1 \<noteq> of_cents 2"
    by code_simp
  show "Money_new (JNum (Num (2 ^ 53))) (JCurrency USD)
       = Inr \<lparr>amount = Num (2 ^ 53), currency = USD\<rparr>"
    by code_simp
  show "Money_new (JNum (Num 1)) (JCurrency USD) = Inr \<lparr>amount = Num 1, currency = USD\<rparr>"
    by code_simp
  show "Money_add \<lparr>amount = Num (2 ^ 53), currency = USD\<rparr> (JMoney \<lparr>amount = Num 1, currency = USD\<rparr>)
       = Inr \<lparr>amount = Num (2 ^ 53), currency = USD\<rparr>"
    by code_simp
  show "Money_add \<lparr>amount = Num 1, currency = USD\<rparr> (JMoney \<lparr>amount = Num 1, currency = USD\<rparr>)
       = Inr \<lparr>amount = Num 2, currency = USD\<rparr>"
    by code_simp
  show "Money_add \<lparr>amount = Num (2 ^ 53), currency = USD\<rparr> (JMoney \<lparr>amount = Num 2, currency = USD\<rparr>)
       = Inr \<lparr>amount = Num (2 ^ 53 + 2), currency = USD\<rparr>"
    by code_simp
  show "Num (2 ^ 53) \<noteq> Num (2 ^ 53 + 2)"
    by simp
qed

section \<open>The total price in whole cents\<close>

text \<open>
  For an order in currency \<open>c\<close> whose items have unit prices of \<open>p\<close> cents and
  quantities \<open>q\<close>, the total is the Number for the exact sum of the \<open>p * q\<close>, as long as
  that sum is at most \<open>10^14\<close> cents.
\<close>

lemma reduce_add_subtotal_cents:
  assumes "list_all2 (\<lambda>item (p, q). unitPrice item = \<lparr>amount = of_cents p, currency = c\<rparr>
             \<and> quantity item = Num (of_nat q) \<and> 1 \<le> q) items pqs"
    and "t + sum_list (map (\<lambda>(p, q). p * q) pqs) \<le> 10 ^ 14"
  shows "reduce add_subtotal \<lparr>amount = of_cents t, currency = c\<rparr> items
           = Inr \<lparr>amount = of_cents (t + sum_list (map (\<lambda>(p, q). p * q) pqs)), currency = c\<rparr>"
  using assms
proof (induction items pqs arbitrary: t rule: list_all2_induct)
  case Nil
  show ?case by simp
next
  case (Cons item items pq pqs)
  obtain p q where pq: "pq = (p, q)" by (cases pq)
  from Cons.hyps(1) pq have item: "unitPrice item = \<lparr>amount = of_cents p, currency = c\<rparr>"
    "quantity item = Num (of_nat q)" "1 \<le> q" by simp_all
  from Cons.prems pq have le: "t + p * q + sum_list (map (\<lambda>(p, q). p * q) pqs) \<le> 10 ^ 14"
    by (simp add: add.assoc)
  then have pq_le: "p * q \<le> 10 ^ 14" and tpq: "t + p * q \<le> 10 ^ 14" by simp_all
  have "p \<le> p * q" using item(3) by (cases q) simp_all
  from this pq_le have p_le: "p \<le> 10 ^ 14" by (rule order_trans)
  have sub: "calculateSubtotal item = Inr \<lparr>amount = of_cents (p * q), currency = c\<rparr>"
    using Money_multiply_cents [of "unitPrice item" p q] item(1,2) p_le pq_le
    by (simp add: calculateSubtotal_def)
  have step: "add_subtotal \<lparr>amount = of_cents t, currency = c\<rparr> item
                = Inr \<lparr>amount = of_cents (t + p * q), currency = c\<rparr>"
    using Money_add_cents [of "\<lparr>amount = of_cents t, currency = c\<rparr>"
        "\<lparr>amount = of_cents (p * q), currency = c\<rparr>" t "p * q"] tpq
    by (simp add: add_subtotal_def sub del: Money_add.simps)
  from Cons.IH [OF le] step pq show ?case by (simp add: add.assoc)
qed

lemma calculateTotalPrice_cents:
  assumes "po_currency po = JCurrency c" and "po_items po \<noteq> []"
    and "list_all2 (\<lambda>item (p, q). unitPrice item = \<lparr>amount = of_cents p, currency = c\<rparr>
           \<and> quantity item = Num (of_nat q) \<and> 1 \<le> q) (po_items po) pqs"
    and "sum_list (map (\<lambda>(p, q). p * q) pqs) \<le> 10 ^ 14"
  shows "calculateTotalPrice po
           = Inr \<lparr>amount = of_cents (sum_list (map (\<lambda>(p, q). p * q) pqs)), currency = c\<rparr>"
  using assms reduce_add_subtotal_cents [of c "po_items po" pqs 0]
  by (simp add: calculateTotalPrice_def Money_new_zero)

end
